theory Spec2Isabelle
  imports Complex_Main "HOL-Library.Word" "HOL-Library.Sublist" "HOL-Library.Multiset"
    "HOL-Library.List_Lexorder"
begin

section \<open>JavaScript values\<close>

text \<open>
  A JavaScript string is a sequence of 16-bit code units. Literals of the source are
  written \<open>js ''...''\<close>; all of them are ASCII.
\<close>

type_synonym jsstring = "16 word list"

definition js :: "string \<Rightarrow> jsstring" where
  "js s = map of_char s"

text \<open>
  Numbers: a finite number is held by its exact value; \<open>NaN\<close> and the infinities (which
  \<open>JSON.parse\<close> yields for \<open>1e999\<close>) are separate values. The source does no arithmetic
  but the test \<open>Date.now() - x.ts > TTL\<close>, modelled by \<open>age_exceeds\<close> below.
\<close>

datatype jsnum = NaN | NegInf | Fin real | PosInf

datatype jsval =
    JUndefined
  | JNull
  | JBool bool
  | JNum jsnum
  | JStr jsstring
  | JArr "jsval list"
  | JObj "(jsstring \<times> jsval) list"

datatype error = SyntaxError | TypeError | QuotaExceededError | NetworkError

text \<open>
  What the host gives and the repository does not define: Unicode case conversion of
  strings that hold a code unit outside ASCII, the collation behind
  \<open>String.prototype.localeCompare\<close> (the argument is coerced by the host, so it is any
  value), \<open>ToNumber\<close> on strings and objects, the floating-point test
  \<open>Date.now() - ts > TTL\<close> for a timestamp that is not an integer (\<open>ageU now ts\<close>), and
  what \<open>Array.prototype.sort\<close> does with a list on which the comparator raises for some
  pairs and not for others (\<open>sortU\<close>: that depends on the pairs the engine chooses to
  compare). Every theorem below holds for every host.
\<close>

record host =
  lowerU :: "jsstring \<Rightarrow> jsstring"
  upperU :: "jsstring \<Rightarrow> jsstring"
  localeCompare :: "jsstring \<Rightarrow> jsval \<Rightarrow> int"
  toNumberU :: "jsval \<Rightarrow> jsnum"
  ageU :: "int \<Rightarrow> real \<Rightarrow> bool"
  sortU :: "jsval list \<Rightarrow> error + jsval list"

section \<open>String primitives used by the normalizers\<close>

text \<open>
  \<open>String.prototype.trim\<close> and the regular expression class \<open>\s\<close> agree on what is
  white space: the WhiteSpace and LineTerminator code points of ECMAScript.
\<close>

definition is_ws :: "16 word \<Rightarrow> bool" where
  "is_ws c \<longleftrightarrow>
     c = 0x0009 \<or> c = 0x000A \<or> c = 0x000B \<or> c = 0x000C \<or> c = 0x000D \<or> c = 0x0020 \<or>
     c = 0x00A0 \<or> c = 0x1680 \<or> (0x2000 \<le> c \<and> c \<le> 0x200A) \<or> c = 0x2028 \<or>
     c = 0x2029 \<or> c = 0x202F \<or> c = 0x205F \<or> c = 0x3000 \<or> c = 0xFEFF"

definition trim :: "jsstring \<Rightarrow> jsstring" where
  "trim s = rev (dropWhile is_ws (rev (dropWhile is_ws s)))"

definition is_lower_latin :: "16 word \<Rightarrow> bool" where
  "is_lower_latin c \<longleftrightarrow> 0x61 \<le> c \<and> c \<le> 0x7A"

definition is_upper_latin :: "16 word \<Rightarrow> bool" where
  "is_upper_latin c \<longleftrightarrow> 0x41 \<le> c \<and> c \<le> 0x5A"

definition is_ascii :: "16 word \<Rightarrow> bool" where
  "is_ascii c \<longleftrightarrow> c \<le> 0x7F"

definition ascii_lower :: "16 word \<Rightarrow> 16 word" where
  "ascii_lower c = (if is_upper_latin c then c + 0x20 else c)"

definition ascii_upper :: "16 word \<Rightarrow> 16 word" where
  "ascii_upper c = (if is_lower_latin c then c - 0x20 else c)"

text \<open>
  \<open>toLowerCase\<close> and \<open>toUpperCase\<close> (the locale-independent ones): on a string of ASCII
  code units they change the 26 letters and nothing else; any other string is converted
  by the host's Unicode tables.
\<close>

definition toLowerCase :: "host \<Rightarrow> jsstring \<Rightarrow> jsstring" where
  "toLowerCase h s = (if list_all is_ascii s then map ascii_lower s else lowerU h s)"

definition toUpperCase :: "host \<Rightarrow> jsstring \<Rightarrow> jsstring" where
  "toUpperCase h s = (if list_all is_ascii s then map ascii_upper s else upperU h s)"

text \<open>
  \<open>/^[a-z]{3}$/.test(x)\<close> and \<open>/^[A-Z]{3}$/.test(x)\<close>: the anchors tie the match to the
  whole string (no \<open>m\<close> flag), the body is exactly \<open>n\<close> code units of the class.
\<close>

fun test_class_n :: "(16 word \<Rightarrow> bool) \<Rightarrow> nat \<Rightarrow> jsstring \<Rightarrow> bool" where
  "test_class_n p 0 s = (s = [])"
| "test_class_n p (Suc n) [] = False"
| "test_class_n p (Suc n) (c # cs) = (p c \<and> test_class_n p n cs)"

text \<open>
  \<open>s || ''\<close> for an argument that is a string or absent (\<open>undefined\<close>, \<open>null\<close>): the only
  falsy string is the empty one.
\<close>

definition or_empty :: "jsstring option \<Rightarrow> jsstring" where
  "or_empty s = (case s of None \<Rightarrow> [] | Some x \<Rightarrow> x)"

text \<open>\<open>.replace(/\s+/g, ' ')\<close>: every maximal run of white space becomes one space.\<close>

function replace_ws_runs :: "jsstring \<Rightarrow> jsstring" where
  "replace_ws_runs [] = []"
| "replace_ws_runs (c # cs) =
     (if is_ws c then 0x20 # replace_ws_runs (dropWhile is_ws cs)
      else c # replace_ws_runs cs)"
  by pat_completeness auto
termination
  by (relation "measure length") (auto simp: length_dropWhile_le less_Suc_eq_le)

text \<open>\<open>Array.prototype.join\<close> on an array of strings.\<close>

fun join :: "jsstring \<Rightarrow> jsstring list \<Rightarrow> jsstring" where
  "join sep [] = []"
| "join sep [x] = x"
| "join sep (x # y # ys) = x @ sep @ join sep (y # ys)"

section \<open>Normalizers\<close>

definition clean :: "jsstring option \<Rightarrow> jsstring" where
  "clean s = replace_ws_runs (trim (or_empty s))"

definition normLang :: "host \<Rightarrow> jsstring option \<Rightarrow> jsstring" where
  "normLang h s =
     (let x = toLowerCase h (trim (or_empty s))
      in if test_class_n is_lower_latin 3 x then x else [])"

definition normCountry :: "host \<Rightarrow> jsstring option \<Rightarrow> jsstring" where
  "normCountry h s =
     (let x = toUpperCase h (trim (or_empty s))
      in if test_class_n is_upper_latin 3 x then x else [])"

definition yyyymmdd :: "jsstring option \<Rightarrow> jsstring" where
  "yyyymmdd d = filter (\<lambda>c. c \<noteq> 0x2D) (or_empty d)"

section \<open>Composer\<close>

record composeInput =
  name :: "jsstring option"
  lang :: "jsstring option"
  country :: "jsstring option"
  event :: "jsstring option"
  includeDate :: bool
  date :: "jsstring option"

text \<open>\<open>if (t) tokens.push(t)\<close>: a string is truthy when it is not empty.\<close>

definition push_if :: "jsstring \<Rightarrow> jsstring list \<Rightarrow> jsstring list" where
  "push_if t tokens = (if t \<noteq> [] then tokens @ [t] else tokens)"

text \<open>\<open>[normLang(lang), normCountry(country)].filter(Boolean).join('-')\<close>\<close>

definition locale_token :: "host \<Rightarrow> jsstring option \<Rightarrow> jsstring option \<Rightarrow> jsstring" where
  "locale_token h l c = join (js ''-'') (filter (\<lambda>t. t \<noteq> []) [normLang h l, normCountry h c])"

definition composeName :: "host \<Rightarrow> composeInput \<Rightarrow> jsstring" where
  "composeName h inp =
     (let tokens0 = [];
          n = clean (name inp);
          tokens1 = push_if n tokens0;
          loc = locale_token h (lang inp) (country inp);
          tokens2 = push_if loc tokens1;
          ev = clean (event inp);
          tokens3 = push_if ev tokens2;
          dt = (if includeDate inp then yyyymmdd (date inp) else []);
          tokens4 = push_if dt tokens3
      in join (js '' - '') tokens4)"

text \<open>A host whose Unicode tables leave every string as it is; used for concrete runs.\<close>

definition plain_host :: host where
  "plain_host = \<lparr> lowerU = (\<lambda>s. s), upperU = (\<lambda>s. s),
                   localeCompare = (\<lambda>s v. 0), toNumberU = (\<lambda>v. NaN),
                   ageU = (\<lambda>n r. False), sortU = (\<lambda>es. Inl TypeError) \<rparr>"

section \<open>Truthiness, property access, coercion\<close>

fun truthy :: "jsval \<Rightarrow> bool" where
  "truthy JUndefined = False"
| "truthy JNull = False"
| "truthy (JBool b) = b"
| "truthy (JNum n) = (case n of NaN \<Rightarrow> False | Fin r \<Rightarrow> r \<noteq> 0 | NegInf \<Rightarrow> True | PosInf \<Rightarrow> True)"
| "truthy (JStr s) = (s \<noteq> [])"
| "truthy (JArr xs) = True"
| "truthy (JObj kvs) = True"

definition nullish :: "jsval \<Rightarrow> bool" where
  "nullish v \<longleftrightarrow> v = JNull \<or> v = JUndefined"

text \<open>
  \<open>v.k\<close> on a value that is neither \<open>null\<close> nor \<open>undefined\<close>, for the keys the source
  reads (\<open>ts\<close>, \<open>data\<close>, \<open>cca3\<close>, \<open>name\<close>, \<open>common\<close>, \<open>languages\<close>): no built-in prototype
  of a JSON value has any of them, so only an object's own property answers. An object
  made by \<open>JSON.parse\<close> holds each key once.
\<close>

fun get_prop :: "jsval \<Rightarrow> jsstring \<Rightarrow> jsval" where
  "get_prop (JObj kvs) k = (case map_of kvs k of None \<Rightarrow> JUndefined | Some v \<Rightarrow> v)"
| "get_prop v k = JUndefined"

text \<open>\<open>v.k\<close> raises a TypeError on \<open>null\<close> and \<open>undefined\<close>; \<open>v?.k\<close> yields \<open>undefined\<close> there.\<close>

definition strict_prop :: "jsval \<Rightarrow> jsstring \<Rightarrow> error + jsval" where
  "strict_prop v k = (if nullish v then Inl TypeError else Inr (get_prop v k))"

definition opt_prop :: "jsval \<Rightarrow> jsstring \<Rightarrow> jsval" where
  "opt_prop v k = (if nullish v then JUndefined else get_prop v k)"

definition js_and :: "jsval \<Rightarrow> jsval \<Rightarrow> jsval" where
  "js_and a b = (if truthy a then b else a)"

definition js_or :: "jsval \<Rightarrow> jsval \<Rightarrow> jsval" where
  "js_or a b = (if truthy a then a else b)"

definition toNumber :: "host \<Rightarrow> jsval \<Rightarrow> jsnum" where
  "toNumber h v =
     (case v of
        JUndefined \<Rightarrow> NaN
      | JNull \<Rightarrow> Fin 0
      | JBool b \<Rightarrow> Fin (if b then 1 else 0)
      | JNum n \<Rightarrow> n
      | _ \<Rightarrow> toNumberU h v)"

section \<open>The persistent store and JSON\<close>

text \<open>
  \<open>localStorage\<close> holds a text per key. The source reads a text only through
  \<open>JSON.parse\<close>, so a stored text is represented by what \<open>JSON.parse\<close> makes of it: a
  SyntaxError (\<open>Malformed\<close>) or a value. \<open>setItem\<close> raises when the quota is exceeded.
  The world also logs the network requests issued and the keys written.
\<close>

datatype item = Malformed | Json jsval

record world =
  storage :: "jsstring \<Rightarrow> item option"
  quota_exceeded :: bool
  requests :: "jsstring list"
  writes :: "jsstring list"

text \<open>
  \<open>JSON.parse(JSON.stringify(v))\<close> for a value inside an array or a property:
  \<open>undefined\<close>, \<open>NaN\<close> and the infinities become \<open>null\<close>, a property whose value is
  \<open>undefined\<close> is left out.
\<close>

fun json_val :: "jsval \<Rightarrow> jsval"
  and json_vals :: "jsval list \<Rightarrow> jsval list"
  and json_props :: "(jsstring \<times> jsval) list \<Rightarrow> (jsstring \<times> jsval) list" where
  "json_val JUndefined = JNull"
| "json_val JNull = JNull"
| "json_val (JBool b) = JBool b"
| "json_val (JNum n) = (case n of Fin r \<Rightarrow> JNum (Fin r) | _ \<Rightarrow> JNull)"
| "json_val (JStr s) = JStr s"
| "json_val (JArr xs) = JArr (json_vals xs)"
| "json_val (JObj kvs) = JObj (json_props kvs)"
| "json_vals [] = []"
| "json_vals (x # xs) = json_val x # json_vals xs"
| "json_props [] = []"
| "json_props ((k, v) # kvs) =
     (if v = JUndefined then json_props kvs else (k, json_val v) # json_props kvs)"

text \<open>The values that JSON represents as they are.\<close>

fun is_json :: "jsval \<Rightarrow> bool"
  and are_json :: "jsval list \<Rightarrow> bool"
  and props_json :: "(jsstring \<times> jsval) list \<Rightarrow> bool" where
  "is_json JUndefined = False"
| "is_json JNull = True"
| "is_json (JBool b) = True"
| "is_json (JNum n) = (case n of Fin r \<Rightarrow> True | _ \<Rightarrow> False)"
| "is_json (JStr s) = True"
| "is_json (JArr xs) = are_json xs"
| "is_json (JObj kvs) = props_json kvs"
| "are_json [] = True"
| "are_json (x # xs) = (is_json x \<and> are_json xs)"
| "props_json [] = True"
| "props_json ((k, v) # kvs) = (is_json v \<and> props_json kvs)"

section \<open>Cache helpers\<close>

definition TTL :: real where
  "TTL = 7 * 24 * 60 * 60 * 1000"

text \<open>
  \<open>Date.now() - n > TTL\<close> for the number \<open>n\<close> that \<open>x.ts\<close> is coerced to. \<open>Date.now()\<close> is
  an integer. With \<open>NaN\<close> the test is false; the difference with an infinity is the
  opposite infinity. For an integer \<open>n\<close> the double difference is the exact one rounded;
  rounding is monotone and \<open>TTL\<close> and \<open>TTL + 1\<close> are doubles, so the test is the test of
  the exact difference. For an \<open>n\<close> with a fraction the rounding matters and the host
  decides.
\<close>

fun age_exceeds :: "host \<Rightarrow> int \<Rightarrow> jsnum \<Rightarrow> bool" where
  "age_exceeds h now NaN = False"
| "age_exceeds h now PosInf = False"
| "age_exceeds h now NegInf = True"
| "age_exceeds h now (Fin r) =
     (if real_of_int \<lfloor>r\<rfloor> = r then real_of_int now - r > TTL else ageU h now r)"

text \<open>
  The body of the \<open>try\<close> in \<open>getCache\<close>; \<open>now\<close> is what \<open>Date.now()\<close> returns.
  \<open>getItem\<close> of a missing key is \<open>null\<close>, which \<open>JSON.parse\<close> reads as the text \<open>null\<close>.
\<close>

definition getCache_try :: "host \<Rightarrow> world \<Rightarrow> int \<Rightarrow> jsstring \<Rightarrow> error + jsval" where
  "getCache_try h w now key =
     (case storage w key of
        Some Malformed \<Rightarrow> Inl SyntaxError
      | None \<Rightarrow> Inr JNull
      | Some (Json x) \<Rightarrow>
          if \<not> truthy x then Inr JNull
          else if age_exceeds h now (toNumber h (get_prop x (js ''ts''))) then Inr JNull
          else Inr (get_prop x (js ''data'')))"

definition getCache :: "host \<Rightarrow> world \<Rightarrow> int \<Rightarrow> jsstring \<Rightarrow> jsval" where
  "getCache h w now key =
     (case getCache_try h w now key of Inl e \<Rightarrow> JNull | Inr v \<Rightarrow> v)"

definition setCache :: "world \<Rightarrow> int \<Rightarrow> jsstring \<Rightarrow> jsval \<Rightarrow> error + world" where
  "setCache w now key data =
     (if quota_exceeded w then Inl QuotaExceededError
      else Inr (w\<lparr> storage := (storage w)
                     (key \<mapsto> Json (json_val (JObj [(js ''ts'', JNum (Fin (of_int now))),
                                                      (js ''data'', data)]))),
                   writes := writes w @ [key] \<rparr>))"

section \<open>Fallback stubs\<close>

definition mk_entry :: "jsstring \<Rightarrow> jsval \<Rightarrow> jsval" where
  "mk_entry c n = JObj [(js ''code'', JStr c), (js ''name'', n)]"

definition languagesStub :: jsval where
  "languagesStub = JArr
     [mk_entry (js ''eng'') (JStr (js ''English'')),
      mk_entry (js ''fra'') (JStr (js ''French'')),
      mk_entry (js ''spa'') (JStr (js ''Spanish'')),
      mk_entry (js ''deu'') (JStr (js ''German'')),
      mk_entry (js ''por'') (JStr (js ''Portuguese'')),
      mk_entry (js ''ita'') (JStr (js ''Italian'')),
      mk_entry (js ''zho'') (JStr (js ''Chinese'')),
      mk_entry (js ''jpn'') (JStr (js ''Japanese'')),
      mk_entry (js ''rus'') (JStr (js ''Russian'')),
      mk_entry (js ''ara'') (JStr (js ''Arabic''))]"

definition countriesStub :: jsval where
  "countriesStub = JArr
     [mk_entry (js ''USA'') (JStr (js ''United States'')),
      mk_entry (js ''FRA'') (JStr (js ''France'')),
      mk_entry (js ''GBR'') (JStr (js ''United Kingdom'')),
      mk_entry (js ''DEU'') (JStr (js ''Germany'')),
      mk_entry (js ''ESP'') (JStr (js ''Spain'')),
      mk_entry (js ''ITA'') (JStr (js ''Italy'')),
      mk_entry (js ''BRA'') (JStr (js ''Brazil'')),
      mk_entry (js ''CAN'') (JStr (js ''Canada'')),
      mk_entry (js ''JPN'') (JStr (js ''Japan'')),
      mk_entry (js ''AUS'') (JStr (js ''Australia''))]"

section \<open>Sorting by name\<close>

text \<open>
  The comparator \<open>(a,b) => a.name.localeCompare(b.name)\<close>: a TypeError unless \<open>a.name\<close>
  is a string; \<open>b.name\<close> is coerced by the host.
\<close>

definition cmp_name :: "host \<Rightarrow> jsval \<Rightarrow> jsval \<Rightarrow> error + int" where
  "cmp_name h a b =
     (case get_prop a (js ''name'') of
        JStr s \<Rightarrow> Inr (localeCompare h s (get_prop b (js ''name'')))
      | _ \<Rightarrow> Inl TypeError)"

text \<open>
  \<open>Array.prototype.sort\<close> with a comparator. A list of fewer than two elements is
  returned without a call of the comparator. When the comparator raises on no pair of
  the list, the sort is stable and, for a comparator that is a total preorder, its result
  is the same in every engine: \<open>sort_cmp\<close>, the stable insertion sort, computes it (under
  \<open>cmp_ok\<close> none of its calls raises, whatever the order of the arguments). When the
  comparator raises on every pair, the first call raises and the exception leaves the
  sort. In between, whether the engine ever asks the comparator about a pair on which it
  raises is the engine's choice of pairs, and the host decides.
\<close>

fun insert_cmp :: "(jsval \<Rightarrow> jsval \<Rightarrow> error + int) \<Rightarrow> jsval \<Rightarrow> jsval list \<Rightarrow> error + jsval list" where
  "insert_cmp cmp x [] = Inr [x]"
| "insert_cmp cmp x (y # ys) =
     (case cmp x y of
        Inl e \<Rightarrow> Inl e
      | Inr v \<Rightarrow>
          if v \<le> 0 then Inr (x # y # ys)
          else (case insert_cmp cmp x ys of Inl e \<Rightarrow> Inl e | Inr zs \<Rightarrow> Inr (y # zs)))"

fun sort_cmp :: "(jsval \<Rightarrow> jsval \<Rightarrow> error + int) \<Rightarrow> jsval list \<Rightarrow> error + jsval list" where
  "sort_cmp cmp [] = Inr []"
| "sort_cmp cmp (x # xs) =
     (case sort_cmp cmp xs of Inl e \<Rightarrow> Inl e | Inr zs \<Rightarrow> insert_cmp cmp x zs)"

definition cmp_ok :: "(jsval \<Rightarrow> jsval \<Rightarrow> error + int) \<Rightarrow> jsval list \<Rightarrow> bool" where
  "cmp_ok cmp es = list_all (\<lambda>a. list_all (\<lambda>b. \<not> isl (cmp a b)) es) es"

definition cmp_fails :: "(jsval \<Rightarrow> jsval \<Rightarrow> error + int) \<Rightarrow> jsval list \<Rightarrow> bool" where
  "cmp_fails cmp es = list_all (\<lambda>a. list_all (\<lambda>b. isl (cmp a b)) es) es"

definition sort_js :: "host \<Rightarrow> (jsval \<Rightarrow> jsval \<Rightarrow> error + int) \<Rightarrow> jsval list \<Rightarrow> error + jsval list" where
  "sort_js h cmp es =
     (case es of
        a # b # rest \<Rightarrow>
          if cmp_ok cmp es then sort_cmp cmp es
          else if cmp_fails cmp es
            then (case cmp a b of Inl e \<Rightarrow> Inl e | Inr v \<Rightarrow> sortU h es)
          else sortU h es
      | _ \<Rightarrow> Inr es)"

section \<open>The network\<close>

text \<open>
  What \<open>await fetch(url)\<close> followed by \<open>await res.json()\<close> comes to: the request is
  rejected, the body is not JSON, or the parsed body.
\<close>

datatype response = FetchRejected | JsonRejected | Rows jsval

definition countries_url :: jsstring where
  "countries_url = js ''https://restcountries.com/v3.1/all?fields=name,cca3''"

definition languages_url :: jsstring where
  "languages_url = js ''https://restcountries.com/v3.1/all?fields=languages''"

definition request :: "world \<Rightarrow> jsstring \<Rightarrow> world" where
  "request w url = w\<lparr> requests := requests w @ [url] \<rparr>"

definition body_of :: "response \<Rightarrow> error + jsval" where
  "body_of r = (case r of FetchRejected \<Rightarrow> Inl NetworkError
                | JsonRejected \<Rightarrow> Inl SyntaxError
                | Rows rows \<Rightarrow> Inr rows)"

section \<open>Fetch countries\<close>

text \<open>\<open>r => r?.cca3 && r?.name?.common\<close>, read as a condition by \<open>filter\<close>.\<close>

definition keep_country :: "jsval \<Rightarrow> bool" where
  "keep_country r =
     truthy (js_and (opt_prop r (js ''cca3'')) (opt_prop (opt_prop r (js ''name'')) (js ''common'')))"

text \<open>
  \<open>r => ({ code: r.cca3.toUpperCase(), name: r.name.common })\<close>: calling \<open>toUpperCase\<close>
  on anything but a string is a TypeError.
\<close>

definition country_entry :: "host \<Rightarrow> jsval \<Rightarrow> error + jsval" where
  "country_entry h r =
     (case strict_prop r (js ''cca3'') of
        Inl e \<Rightarrow> Inl e
      | Inr c \<Rightarrow>
          (case c of
             JStr s \<Rightarrow>
               (case strict_prop r (js ''name'') of
                  Inl e \<Rightarrow> Inl e
                | Inr nm \<Rightarrow>
                    (case strict_prop nm (js ''common'') of
                       Inl e \<Rightarrow> Inl e
                     | Inr cn \<Rightarrow> Inr (mk_entry (toUpperCase h s) cn)))
           | _ \<Rightarrow> Inl TypeError))"

fun map_js :: "('a \<Rightarrow> error + 'b) \<Rightarrow> 'a list \<Rightarrow> error + 'b list" where
  "map_js f [] = Inr []"
| "map_js f (x # xs) =
     (case f x of
        Inl e \<Rightarrow> Inl e
      | Inr y \<Rightarrow> (case map_js f xs of Inl e \<Rightarrow> Inl e | Inr ys \<Rightarrow> Inr (y # ys)))"

text \<open>\<open>rows.filter(...).map(...).sort(...)\<close>; \<open>rows.filter\<close> exists on arrays only.\<close>

definition countries_data :: "host \<Rightarrow> jsval \<Rightarrow> error + jsval list" where
  "countries_data h rows =
     (case rows of
        JArr rs \<Rightarrow>
          (case map_js (country_entry h) (filter keep_country rs) of
             Inl e \<Rightarrow> Inl e
           | Inr es \<Rightarrow> sort_js h (cmp_name h) es)
      | _ \<Rightarrow> Inl TypeError)"

text \<open>
  The body of the \<open>try\<close> in \<open>fetchCountries\<close>, after the request was issued; \<open>now\<close> is
  \<open>Date.now()\<close> at the cache write.
\<close>

definition countries_try :: "host \<Rightarrow> response \<Rightarrow> world \<Rightarrow> int \<Rightarrow> error + (jsval \<times> world)" where
  "countries_try h resp w now =
     (case body_of resp of
        Inl e \<Rightarrow> Inl e
      | Inr rows \<Rightarrow>
          (case countries_data h rows of
             Inl e \<Rightarrow> Inl e
           | Inr data \<Rightarrow>
               (case setCache w now (js ''countries.v1'') (JArr data) of
                  Inl e \<Rightarrow> Inl e
                | Inr w' \<Rightarrow> Inr (JArr data, w'))))"

text \<open>
  \<open>fetchCountries\<close>: \<open>net\<close> answers a request, \<open>now\<close> is the time of the cache read and
  \<open>now'\<close> the time of the cache write.
\<close>

definition fetchCountries :: "host \<Rightarrow> (jsstring \<Rightarrow> response) \<Rightarrow> world \<Rightarrow> int \<Rightarrow> int \<Rightarrow> jsval \<times> world" where
  "fetchCountries h net w now now' =
     (let cached = getCache h w now (js ''countries.v1'')
      in if truthy cached then (cached, w)
         else
           (let w1 = request w countries_url
            in case countries_try h (net countries_url) w1 now' of
                 Inl e \<Rightarrow> (countriesStub, w1)
               | Inr (data, w2) \<Rightarrow> (data, w2)))"

section \<open>Fetch languages\<close>

text \<open>
  \<open>Object.entries\<close>. On an object the pairs come in insertion order, but for keys that
  are array indices, which come first; on a string or an array every key is an index;
  a number or a boolean has no pair. An index never passes \<open>/^[a-z]{3}$/\<close> after
  \<open>toLowerCase\<close> changes nothing in it, and the loop skips it without a trace, so the model
  lists the pairs of an object in insertion order and none for the other values.
\<close>

definition object_entries :: "jsval \<Rightarrow> (jsstring \<times> jsval) list" where
  "object_entries v = (case v of JObj kvs \<Rightarrow> kvs | _ \<Rightarrow> [])"

text \<open>The \<open>Map\<close>: pairs in insertion order, each key once.\<close>

definition map_has :: "(jsstring \<times> jsval) list \<Rightarrow> jsstring \<Rightarrow> bool" where
  "map_has m k \<longleftrightarrow> k \<in> fst ` set m"

definition map_set :: "(jsstring \<times> jsval) list \<Rightarrow> jsstring \<Rightarrow> jsval \<Rightarrow> (jsstring \<times> jsval) list" where
  "map_set m k v =
     (if map_has m k then map (\<lambda>kv. if fst kv = k then (k, v) else kv) m else m @ [(k, v)])"

text \<open>The inner loop, over the entries of one row.\<close>

fun add_langs :: "host \<Rightarrow> (jsstring \<times> jsval) list \<Rightarrow> (jsstring \<times> jsval) list \<Rightarrow> (jsstring \<times> jsval) list" where
  "add_langs h m [] = m"
| "add_langs h m ((code, nm) # rest) =
     (let c = toLowerCase h (or_empty (Some code))
      in if \<not> test_class_n is_lower_latin 3 c then add_langs h m rest
         else if \<not> map_has m c then add_langs h (map_set m c nm) rest
         else add_langs h m rest)"

text \<open>The outer loop, over the rows.\<close>

fun scan_rows :: "host \<Rightarrow> (jsstring \<times> jsval) list \<Rightarrow> jsval list \<Rightarrow> (jsstring \<times> jsval) list" where
  "scan_rows h m [] = m"
| "scan_rows h m (r # rs) =
     (let langs = js_or (opt_prop r (js ''languages'')) (JObj [])
      in scan_rows h (add_langs h m (object_entries langs)) rs)"

text \<open>
  \<open>for (const r of rows)\<close>: an array gives its elements and a string its code points
  (each a string); nothing else that JSON can hold is iterable.
\<close>

definition is_high_surrogate :: "16 word \<Rightarrow> bool" where
  "is_high_surrogate c \<longleftrightarrow> 0xD800 \<le> c \<and> c \<le> 0xDBFF"

definition is_low_surrogate :: "16 word \<Rightarrow> bool" where
  "is_low_surrogate c \<longleftrightarrow> 0xDC00 \<le> c \<and> c \<le> 0xDFFF"

fun code_points :: "jsstring \<Rightarrow> jsstring list" where
  "code_points [] = []"
| "code_points [c] = [[c]]"
| "code_points (c # d # cs) =
     (if is_high_surrogate c \<and> is_low_surrogate d then [c, d] # code_points cs
      else [c] # code_points (d # cs))"

definition iterate :: "jsval \<Rightarrow> error + jsval list" where
  "iterate rows =
     (case rows of
        JArr rs \<Rightarrow> Inr rs
      | JStr s \<Rightarrow> Inr (map JStr (code_points s))
      | _ \<Rightarrow> Inl TypeError)"

text \<open>Lines 73 to 83: the loops, \<open>Array.from(map, ...)\<close> and the sort.\<close>

definition languages_data :: "host \<Rightarrow> jsval \<Rightarrow> error + jsval list" where
  "languages_data h rows =
     (case iterate rows of
        Inl e \<Rightarrow> Inl e
      | Inr rs \<Rightarrow>
          sort_js h (cmp_name h) (map (\<lambda>kv. mk_entry (fst kv) (snd kv)) (scan_rows h [] rs)))"

definition languages_try :: "host \<Rightarrow> response \<Rightarrow> world \<Rightarrow> int \<Rightarrow> error + (jsval \<times> world)" where
  "languages_try h resp w now =
     (case body_of resp of
        Inl e \<Rightarrow> Inl e
      | Inr rows \<Rightarrow>
          (case languages_data h rows of
             Inl e \<Rightarrow> Inl e
           | Inr data \<Rightarrow>
               (case setCache w now (js ''languages.v1'') (JArr data) of
                  Inl e \<Rightarrow> Inl e
                | Inr w' \<Rightarrow> Inr (JArr data, w'))))"

definition fetchLanguages :: "host \<Rightarrow> (jsstring \<Rightarrow> response) \<Rightarrow> world \<Rightarrow> int \<Rightarrow> int \<Rightarrow> jsval \<times> world" where
  "fetchLanguages h net w now now' =
     (let cached = getCache h w now (js ''languages.v1'')
      in if truthy cached then (cached, w)
         else
           (let w1 = request w languages_url
            in case languages_try h (net languages_url) w1 now' of
                 Inl e \<Rightarrow> (languagesStub, w1)
               | Inr (data, w2) \<Rightarrow> (data, w2)))"

section \<open>What the specification says of the transforms\<close>

text \<open>
  The languages transform in the words of the specification: every row contributes the
  pairs of its code-to-name map, a code is accepted when its lowercased form is three
  lowercase letters, and the first name met for a code wins.
\<close>

definition lang_pairs :: "host \<Rightarrow> jsval list \<Rightarrow> (jsstring \<times> jsval) list" where
  "lang_pairs h rs =
     concat (map (\<lambda>r. map (\<lambda>kv. (toLowerCase h (fst kv), snd kv))
                          (object_entries (js_or (opt_prop r (js ''languages'')) (JObj [])))) rs)"

definition accepted_langs :: "host \<Rightarrow> jsval list \<Rightarrow> (jsstring \<times> jsval) list" where
  "accepted_langs h rs =
     filter (\<lambda>kv. length (fst kv) = 3 \<and> list_all is_lower_latin (fst kv)) (lang_pairs h rs)"

function first_wins :: "('k \<times> 'v) list \<Rightarrow> ('k \<times> 'v) list" where
  "first_wins [] = []"
| "first_wins (kv # kvs) = kv # first_wins (filter (\<lambda>p. fst p \<noteq> fst kv) kvs)"
  by pat_completeness auto
termination
  by (relation "measure length") (auto simp: less_Suc_eq_le)

text \<open>
  Ascending by name: whenever \<open>a\<close> stands before \<open>b\<close>, \<open>a.name\<close> is a string and
  \<open>a.name.localeCompare(b.name)\<close> is not positive.
\<close>

definition name_le :: "host \<Rightarrow> jsval \<Rightarrow> jsval \<Rightarrow> bool" where
  "name_le h a b =
     (case get_prop a (js ''name'') of
        JStr s \<Rightarrow> localeCompare h s (get_prop b (js ''name'')) \<le> 0
      | _ \<Rightarrow> False)"

definition sorted_by_name :: "host \<Rightarrow> jsval list \<Rightarrow> bool" where
  "sorted_by_name h es = sorted_wrt (name_le h) es"

text \<open>The collation of the host is a total preorder on strings.\<close>

definition collation_ok :: "host \<Rightarrow> bool" where
  "collation_ok h \<longleftrightarrow>
     (\<forall>s t. localeCompare h s (JStr t) \<le> 0 \<or> localeCompare h t (JStr s) \<le> 0) \<and>
     (\<forall>s t u. localeCompare h s (JStr t) \<le> 0 \<and> localeCompare h t (JStr u) \<le> 0
        \<longrightarrow> localeCompare h s (JStr u) \<le> 0)"

definition is_str :: "jsval \<Rightarrow> bool" where
  "is_str v = (case v of JStr s \<Rightarrow> True | _ \<Rightarrow> False)"

definition the_str :: "jsval \<Rightarrow> jsstring" where
  "the_str v = (case v of JStr s \<Rightarrow> s | _ \<Rightarrow> [])"

text \<open>
  A countries row as the remote source documents it: the code and the common name are
  strings. The entry the specification gives for such a row.
\<close>

definition typed_country :: "jsval \<Rightarrow> bool" where
  "typed_country r \<longleftrightarrow>
     is_str (get_prop r (js ''cca3'')) \<and>
     is_str (get_prop (get_prop r (js ''name'')) (js ''common''))"

definition entry_of :: "host \<Rightarrow> jsval \<Rightarrow> jsval" where
  "entry_of h r =
     mk_entry (toUpperCase h (the_str (get_prop r (js ''cca3''))))
              (get_prop (get_prop r (js ''name'')) (js ''common''))"

text \<open>An entry whose name is a string.\<close>

definition named :: "jsval \<Rightarrow> bool" where
  "named e = is_str (get_prop e (js ''name''))"

text \<open>The two steps of accepting a pair: lowercase the code, test its form.\<close>

definition lower_pair :: "host \<Rightarrow> jsstring \<times> jsval \<Rightarrow> jsstring \<times> jsval" where
  "lower_pair h kv = (toLowerCase h (fst kv), snd kv)"

definition ok_pair :: "jsstring \<times> jsval \<Rightarrow> bool" where
  "ok_pair kv \<longleftrightarrow> length (fst kv) = 3 \<and> list_all is_lower_latin (fst kv)"

text \<open>
  The world after a fetcher has issued its request and written \<open>data\<close> under \<open>key\<close> at
  time \<open>now\<close>.
\<close>

definition wrote :: "world \<Rightarrow> jsstring \<Rightarrow> jsstring \<Rightarrow> int \<Rightarrow> jsval \<Rightarrow> world" where
  "wrote w url key now data =
     (request w url)\<lparr> storage := (storage w)(key \<mapsto> Json (JObj [(js ''ts'', JNum (Fin (of_int now))),
                                                                  (js ''data'', data)])),
                     writes := writes w @ [key] \<rparr>"

section \<open>Concrete worlds and hosts\<close>

definition empty_world :: world where
  "empty_world = \<lparr> storage = (\<lambda>k. None), quota_exceeded = False, requests = [], writes = [] \<rparr>"


text \<open>A store whose text under every key is \<open>{"ts":0,"data":""}\<close>.\<close>

definition falsy_world :: world where
  "falsy_world =
     empty_world\<lparr> storage := (\<lambda>k. Some (Json (JObj [(js ''ts'', JNum (Fin 0)),
                                                         (js ''data'', JStr [])]))) \<rparr>"

text \<open>A store whose text under every key is \<open>{"ts":0,"data":[]}\<close>.\<close>

definition cached_world :: world where
  "cached_world =
     empty_world\<lparr> storage := (\<lambda>k. Some (Json (JObj [(js ''ts'', JNum (Fin 0)),
                                                         (js ''data'', JArr [])]))) \<rparr>"



definition one_entry :: "jsval list" where
  "one_entry = [mk_entry (js ''USA'') (JStr (js ''United States''))]"

definition written_world :: world where
  "written_world =
     (case setCache empty_world 1000 (js ''k'') (JArr one_entry) of
        Inr w \<Rightarrow> w
      | Inl e \<Rightarrow> empty_world)"

text \<open>A host that collates strings by their code units.\<close>

definition unit_host :: host where
  "unit_host = plain_host\<lparr> localeCompare :=
     (\<lambda>s v. case v of JStr t \<Rightarrow> (if s < t then - 1 else if s = t then 0 else 1) | _ \<Rightarrow> 0) \<rparr>"

text \<open>The row \<open>{"cca3": c, "name": {"common": n}}\<close> and the row \<open>{"languages": m}\<close>.\<close>

definition country_row :: "string \<Rightarrow> string \<Rightarrow> jsval" where
  "country_row c n =
     JObj [(js ''cca3'', JStr (js c)), (js ''name'', JObj [(js ''common'', JStr (js n))])]"

definition languages_row :: "(string \<times> string) list \<Rightarrow> jsval" where
  "languages_row m = JObj [(js ''languages'', JObj (map (\<lambda>kv. (js (fst kv), JStr (js (snd kv)))) m))]"

text \<open>The empty world with a store that refuses every write.\<close>

definition full_world :: world where
  "full_world = empty_world\<lparr> quota_exceeded := True \<rparr>"

text \<open>The rows \<open>[{"languages": {"eng": 1, "fra": 2}}]\<close>: names that are numbers.\<close>

definition numeric_rows :: "jsval list" where
  "numeric_rows =
     [JObj [(js ''languages'', JObj [(js ''eng'', JNum (Fin 1)), (js ''fra'', JNum (Fin 2))])]]"

text \<open>
  A course name and an event label with leading, trailing and repeated white space
  (space, tab, line feed, no-break space).
\<close>

definition spaced_name :: jsstring where
  "spaced_name = [0x20, 0x09] @ js ''Intro   to'' @ [0x0A, 0xA0] @ js ''ML ''"

definition spaced_event :: jsstring where
  "spaced_event = js ''  Fall'' @ [0x09, 0x09] @ js ''Cohort'' @ [0x0A]"

text \<open>Sample responses.\<close>

definition sample_countries :: "jsval list" where
  "sample_countries = [country_row ''fra'' ''France'', JNull, country_row ''bra'' ''Brazil'']"

definition sample_languages :: "jsval list" where
  "sample_languages =
     [languages_row [(''ENG'', ''English''), (''fra'', ''French'')],
      JNull,
      languages_row [(''eng'', ''Anglais''), (''zz'', ''Short'')]]"

section \<open>The normalizers and the composer, verified\<close>

lemma test_class_n_iff: "test_class_n p n s \<longleftrightarrow> length s = n \<and> list_all p s"
  by (induction p n s rule: test_class_n.induct) auto

lemma lower_not_ws: "is_lower_latin c \<Longrightarrow> \<not> is_ws c"
  by (auto simp: is_lower_latin_def is_ws_def word_le_nat_alt)

lemma upper_not_ws: "is_upper_latin c \<Longrightarrow> \<not> is_ws c"
  by (auto simp: is_upper_latin_def is_ws_def word_le_nat_alt)

lemma lower_not_upper: "is_lower_latin c \<Longrightarrow> \<not> is_upper_latin c"
  by (auto simp: is_lower_latin_def is_upper_latin_def word_le_nat_alt)

lemma lower_ascii: "is_lower_latin c \<Longrightarrow> is_ascii c"
  by (auto simp: is_lower_latin_def is_ascii_def word_le_nat_alt)

lemma upper_ascii: "is_upper_latin c \<Longrightarrow> is_ascii c"
  by (auto simp: is_upper_latin_def is_ascii_def word_le_nat_alt)

lemma trim_no_ws: 
  assumes "list_all (\<lambda>c. \<not> is_ws c) s" shows "trim s = s"
proof -
  have 1: "dropWhile is_ws s = s" using assms by (cases s) auto
  have 2: "dropWhile is_ws (rev s) = rev s" using assms by (cases s rule: rev_cases) auto
  show ?thesis by (simp add: trim_def 1 2)
qed

lemmas eval_defs = Let_def test_class_n_iff composeName_def clean_def locale_token_def push_if_def
  yyyymmdd_def normCountry_def toUpperCase_def ascii_upper_def normLang_def js_def or_empty_def
  trim_def is_ws_def toLowerCase_def is_ascii_def ascii_lower_def is_upper_latin_def
  is_lower_latin_def

lemma normLang_or_empty: "or_empty s = [] \<Longrightarrow> normLang h s = []"
  by (simp add: normLang_def trim_def toLowerCase_def test_class_n_iff)

lemma normCountry_or_empty: "or_empty s = [] \<Longrightarrow> normCountry h s = []"
  by (simp add: normCountry_def trim_def toUpperCase_def test_class_n_iff)

lemma clean_or_empty: "or_empty s = [] \<Longrightarrow> clean s = []"
  by (simp add: clean_def trim_def)

lemma composeName_filter:
  "composeName h inp =
     join (js '' - '') (filter (\<lambda>t. t \<noteq> [])
        [clean (name inp), locale_token h (lang inp) (country inp), clean (event inp),
         if includeDate inp then yyyymmdd (date inp) else []])"
  by (simp add: composeName_def Let_def push_if_def)

lemma locale_token_cases:
  "locale_token h l c =
     (if normLang h l = [] then normCountry h c
      else if normCountry h c = [] then normLang h l
      else normLang h l @ js ''-'' @ normCountry h c)"
  by (simp add: locale_token_def)

text \<open>
  Claim C1. \<open>composeName\<close> joins with \<open>" - "\<close> the non-empty ones among, in this order,
  the cleaned course name, the locale token, the cleaned event label and, when
  \<open>includeDate\<close> is set, the compact date; the locale token is the normalized language and
  the normalized country joined by \<open>"-"\<close>, or the one that is not empty; the result is
  empty when every input is empty or absent; and the scenario of the specification
  yields \<open>"Intro to ML - eng-USA - Fall Cohort - 20240901"\<close>, also when the course name
  and the event label come with leading, trailing and repeated white space, which
  \<open>clean\<close> trims and collapses.
\<close>

theorem composeName_tokens:
  "composeName h inp =
     join (js '' - '') (filter (\<lambda>t. t \<noteq> [])
        [clean (name inp), locale_token h (lang inp) (country inp), clean (event inp),
         if includeDate inp then yyyymmdd (date inp) else []])
   \<and> locale_token h (lang inp) (country inp) =
       (if normLang h (lang inp) = [] then normCountry h (country inp)
        else if normCountry h (country inp) = [] then normLang h (lang inp)
        else normLang h (lang inp) @ js ''-'' @ normCountry h (country inp))
   \<and> (or_empty (name inp) = [] \<and> or_empty (lang inp) = [] \<and> or_empty (country inp) = [] \<and>
      or_empty (event inp) = [] \<and> or_empty (date inp) = [] \<longrightarrow> composeName h inp = [])
   \<and> composeName h \<lparr> name = Some (js ''Intro to ML''), lang = Some (js ''ENG''),
        country = Some (js ''usa''), event = Some (js ''Fall Cohort''), includeDate = True,
        date = Some (js ''2024-09-01'') \<rparr> = js ''Intro to ML - eng-USA - Fall Cohort - 20240901''
   \<and> clean (Some spaced_name) = js ''Intro to ML''
   \<and> clean (Some spaced_event) = js ''Fall Cohort''
   \<and> composeName h \<lparr> name = Some spaced_name, lang = Some (js '' ENG ''),
        country = Some (js ''usa ''), event = Some spaced_event, includeDate = True,
        date = Some (js ''2024-09-01'') \<rparr> = js ''Intro to ML - eng-USA - Fall Cohort - 20240901''
   \<and> composeName h \<lparr> name = Some spaced_name, lang = None, country = None,
        event = Some spaced_event, includeDate = False,
        date = Some (js ''2024-09-01'') \<rparr> = js ''Intro to ML - Fall Cohort''"
proof (intro conjI impI)
  show "composeName h inp =
     join (js '' - '') (filter (\<lambda>t. t \<noteq> [])
        [clean (name inp), locale_token h (lang inp) (country inp), clean (event inp),
         if includeDate inp then yyyymmdd (date inp) else []])"
    by (rule composeName_filter)
next
  show "locale_token h (lang inp) (country inp) =
       (if normLang h (lang inp) = [] then normCountry h (country inp)
        else if normCountry h (country inp) = [] then normLang h (lang inp)
        else normLang h (lang inp) @ js ''-'' @ normCountry h (country inp))"
    by (rule locale_token_cases)
next
  assume "or_empty (name inp) = [] \<and> or_empty (lang inp) = [] \<and> or_empty (country inp) = [] \<and>
      or_empty (event inp) = [] \<and> or_empty (date inp) = []"
  then show "composeName h inp = []"
    by (simp add: composeName_filter locale_token_cases clean_or_empty normLang_or_empty
        normCountry_or_empty yyyymmdd_def)
next
  show "composeName h \<lparr> name = Some (js ''Intro to ML''), lang = Some (js ''ENG''),
        country = Some (js ''usa''), event = Some (js ''Fall Cohort''), includeDate = True,
        date = Some (js ''2024-09-01'') \<rparr> = js ''Intro to ML - eng-USA - Fall Cohort - 20240901''"
    by (simp add: eval_defs)
next
  show "clean (Some spaced_name) = js ''Intro to ML''"
    by (simp add: eval_defs spaced_name_def)
next
  show "clean (Some spaced_event) = js ''Fall Cohort''"
    by (simp add: eval_defs spaced_event_def)
next
  show "composeName h \<lparr> name = Some spaced_name, lang = Some (js '' ENG ''),
        country = Some (js ''usa ''), event = Some spaced_event, includeDate = True,
        date = Some (js ''2024-09-01'') \<rparr> = js ''Intro to ML - eng-USA - Fall Cohort - 20240901''"
    by (simp add: eval_defs spaced_name_def spaced_event_def)
next
  show "composeName h \<lparr> name = Some spaced_name, lang = None, country = None,
        event = Some spaced_event, includeDate = False,
        date = Some (js ''2024-09-01'') \<rparr> = js ''Intro to ML - Fall Cohort''"
    by (simp add: eval_defs spaced_name_def spaced_event_def)
qed

theorem composeName_tokens_witness:
  "composeName plain_host \<lparr> name = Some [], lang = None, country = Some [], event = None,
       includeDate = False, date = None \<rparr> = []"
proof -
  let ?inp = "\<lparr> name = Some [], lang = None, country = Some [], event = None,
       includeDate = False, date = None \<rparr>"
  have "or_empty (name ?inp) = [] \<and> or_empty (lang ?inp) = [] \<and> or_empty (country ?inp) = [] \<and>
      or_empty (event ?inp) = [] \<and> or_empty (date ?inp) = []"
    by (simp add: or_empty_def)
  with composeName_tokens [of plain_host ?inp] show ?thesis by blast
qed

lemma normLang_id:
  assumes "length l = 3" "list_all is_lower_latin l"
  shows "normLang h (Some l) = l"
proof -
  have "list_all (\<lambda>c. \<not> is_ws c) l" using assms(2) by (induction l) (auto simp: lower_not_ws)
  then have t: "trim l = l" by (rule trim_no_ws)
  have a: "list_all is_ascii l" using assms(2) by (induction l) (auto simp: lower_ascii)
  have m: "map ascii_lower l = l" using assms(2)
    by (induction l) (auto simp: ascii_lower_def lower_not_upper)
  show ?thesis using assms by (simp add: normLang_def or_empty_def t toLowerCase_def a m test_class_n_iff)
qed

lemma normCountry_id:
  assumes "length c = 3" "list_all is_upper_latin c"
  shows "normCountry h (Some c) = c"
proof -
  have "list_all (\<lambda>x. \<not> is_ws x) c" using assms(2) by (induction c) (auto simp: upper_not_ws)
  then have t: "trim c = c" by (rule trim_no_ws)
  have a: "list_all is_ascii c" using assms(2) by (induction c) (auto simp: upper_ascii)
  have m: "map ascii_upper c = c" using assms(2) lower_not_upper
    by (induction c) (auto simp: ascii_upper_def)
  show ?thesis using assms by (simp add: normCountry_def or_empty_def t toUpperCase_def a m test_class_n_iff)
qed

lemma normCountry_valid:
  "normCountry h s \<noteq> [] \<Longrightarrow> length (normCountry h s) = 3 \<and> list_all is_upper_latin (normCountry h s)"
  by (simp add: normCountry_def Let_def test_class_n_iff split: if_splits)

lemma sublist_join: "t \<in> set ts \<Longrightarrow> sublist t (join sep ts)"
proof (induction sep ts rule: join.induct)
  case (1 sep) then show ?case by simp
next
  case (2 sep x) then show ?case by simp
next
  case (3 sep x y ys)
  show ?case
  proof (cases "t = x")
    case True then show ?thesis by simp
  next
    case False
    with 3 have "sublist t (join sep (y # ys))" by simp
    then show ?thesis by (simp add: sublist_append)
  qed
qed

text \<open>
  Claim C2. For a language \<open>l\<close> of three lowercase letters and a country \<open>c\<close> of three
  uppercase letters the composed name contains \<open>l + "-" + c\<close>; and when the language
  normalizes to empty and the country to a code \<open>c\<close>, the locale token is \<open>c\<close> alone
  (three uppercase letters, no hyphen) and the composed name contains it.
\<close>

theorem locale_in_composeName:
  "(length l = 3 \<and> list_all is_lower_latin l \<and> length c = 3 \<and> list_all is_upper_latin c \<and>
      lang inp = Some l \<and> country inp = Some c
      \<longrightarrow> locale_token h (lang inp) (country inp) = l @ js ''-'' @ c
          \<and> sublist (l @ js ''-'' @ c) (composeName h inp))
   \<and> (normLang h (lang inp) = [] \<and> normCountry h (country inp) = c \<and> c \<noteq> []
      \<longrightarrow> locale_token h (lang inp) (country inp) = c
          \<and> length c = 3 \<and> list_all is_upper_latin c
          \<and> sublist c (composeName h inp))"
proof (intro conjI impI)
  assume a: "length l = 3 \<and> list_all is_lower_latin l \<and> length c = 3 \<and> list_all is_upper_latin c \<and>
      lang inp = Some l \<and> country inp = Some c"
  then have nl: "normLang h (lang inp) = l" and nc: "normCountry h (country inp) = c"
    by (simp_all add: normLang_id normCountry_id)
  from a have ne: "l \<noteq> []" "c \<noteq> []" by auto
  show loc: "locale_token h (lang inp) (country inp) = l @ js ''-'' @ c"
    using ne by (simp add: locale_token_cases nl nc)
  show "sublist (l @ js ''-'' @ c) (composeName h inp)"
    unfolding composeName_filter by (rule sublist_join) (simp add: loc ne)
next
  assume a: "normLang h (lang inp) = [] \<and> normCountry h (country inp) = c \<and> c \<noteq> []"
  then show loc: "locale_token h (lang inp) (country inp) = c"
    by (simp add: locale_token_cases)
  show "length c = 3" "list_all is_upper_latin c"
    using a normCountry_valid [of h "country inp"] by simp_all
  show "sublist c (composeName h inp)"
    unfolding composeName_filter using a by (intro sublist_join) (simp add: loc)
qed

theorem locale_in_composeName_witness:
  "sublist (js ''eng-USA'') (composeName plain_host \<lparr> name = Some (js ''X''), lang = Some (js ''eng''),
       country = Some (js ''USA''), event = None, includeDate = False, date = None \<rparr>)
   \<and> locale_token plain_host (Some (js ''english'')) (Some (js ''usa'')) = js ''USA''"
  using locale_in_composeName [of "js ''eng''" "js ''USA''" "\<lparr> name = Some (js ''X''), lang = Some (js ''eng''),
       country = Some (js ''USA''), event = None, includeDate = False, date = None \<rparr>" plain_host]
    locale_in_composeName [of "[]" "js ''USA''" "\<lparr> name = None, lang = Some (js ''english''),
       country = Some (js ''usa''), event = None, includeDate = False, date = None \<rparr>" plain_host]
  by (simp add: eval_defs)

text \<open>
  Claim C3. \<open>normLang\<close> trims and lowercases its argument (a string, or absent) and
  returns the result exactly when it is three lowercase Latin letters, the empty string
  otherwise; \<open>normCountry\<close> does the same with uppercase; \<open>normLang\<close> maps \<open>"EN"\<close> to
  \<open>""\<close>, \<open>"eng"\<close> to \<open>"eng"\<close> and \<open>" ENG "\<close> to \<open>"eng"\<close>, and \<open>normCountry\<close> maps \<open>"US"\<close>
  to \<open>""\<close> and \<open>"usa"\<close> and \<open>" uSa "\<close> to \<open>"USA"\<close>; on a string of ASCII code units the
  case conversions change the 26 letters only.
\<close>

theorem normalizers_spec:
  "normLang h s =
     (let x = toLowerCase h (trim (or_empty s))
      in if length x = 3 \<and> list_all is_lower_latin x then x else [])
   \<and> normCountry h s =
     (let x = toUpperCase h (trim (or_empty s))
      in if length x = 3 \<and> list_all is_upper_latin x then x else [])
   \<and> normLang h None = [] \<and> normCountry h None = []
   \<and> normLang h (Some (js ''EN'')) = []
   \<and> normLang h (Some (js ''eng'')) = js ''eng''
   \<and> normLang h (Some (js '' ENG '')) = js ''eng''
   \<and> normLang h (Some (js ''en1'')) = []
   \<and> normLang h (Some (js ''engl'')) = []
   \<and> normCountry h (Some (js ''US'')) = []
   \<and> normCountry h (Some (js ''USA'')) = js ''USA''
   \<and> normCountry h (Some (js ''usa'')) = js ''USA''
   \<and> normCountry h (Some (js '' uSa '')) = js ''USA''
   \<and> normCountry h (Some (js ''us1'')) = []
   \<and> normCountry h (Some (js ''usaa'')) = []
   \<and> (list_all is_ascii u \<longrightarrow>
        toLowerCase h u = map ascii_lower u \<and> toUpperCase h u = map ascii_upper u)
   \<and> ascii_upper 0x61 = 0x41 \<and> ascii_upper 0x7A = 0x5A \<and> ascii_upper 0x41 = 0x41
   \<and> ascii_lower 0x41 = 0x61 \<and> ascii_lower 0x5A = 0x7A \<and> ascii_lower 0x61 = 0x61"
  by (simp add: eval_defs)

theorem normalizers_spec_witness:
  "toLowerCase plain_host (js ''EnG'') = js ''eng'' \<and> toUpperCase plain_host (js ''uSa'') = js ''USA''"
proof -
  have a: "list_all is_ascii (js ''EnG'')" "list_all is_ascii (js ''uSa'')"
    by (simp_all add: js_def is_ascii_def)
  show ?thesis
    using normalizers_spec [of plain_host _ "js ''EnG''"] normalizers_spec [of plain_host _ "js ''uSa''"] a
    by (simp add: js_def ascii_lower_def ascii_upper_def is_upper_latin_def is_lower_latin_def)
qed

section \<open>The cache, verified\<close>

lemma json_val_id:
  "is_json v \<Longrightarrow> json_val v = v"
  "are_json vs \<Longrightarrow> json_vals vs = vs"
  "props_json kvs \<Longrightarrow> json_props kvs = kvs"
  by (induction v and vs and kvs rule: json_val_json_vals_json_props.induct)
     (auto split: jsnum.splits)

lemma is_json_val: "is_json v \<Longrightarrow> json_val v = v"
  by (rule json_val_id(1))

lemma key_ts_data: "js ''ts'' \<noteq> js ''data''" "js ''data'' \<noteq> js ''ts''"
  by (simp_all add: js_def)

text \<open>The entry that \<open>setCache\<close> leaves under the key.\<close>

lemma setCache_storage:
  "setCache w t0 k X = Inr w' \<Longrightarrow>
     storage w' k = Some (Json (JObj ((js ''ts'', JNum (Fin (of_int t0))) #
        (if X = JUndefined then [] else [(js ''data'', json_val X)]))))"
  by (auto simp: setCache_def split: if_splits)

lemma setCache_ok: "\<not> quota_exceeded w \<Longrightarrow> \<exists>w'. setCache w t0 k X = Inr w'"
  by (simp add: setCache_def)

lemma getCache_entry:
  "storage w k = Some (Json x) \<Longrightarrow> get_prop x (js ''ts'') = JNum (Fin (real_of_int t)) \<Longrightarrow>
     getCache h w now k =
       (if real_of_int now - real_of_int t > TTL then JNull else get_prop x (js ''data''))"
  by (cases x) (auto simp: getCache_def getCache_try_def toNumber_def)

lemma getCache_after_set:
  assumes "setCache w t0 k X = Inr w'"
  shows "getCache h w' t1 k =
     (if real_of_int t1 - real_of_int t0 > TTL then JNull
      else if X = JUndefined then JUndefined else json_val X)"
proof -
  let ?x = "JObj ((js ''ts'', JNum (Fin (of_int t0))) #
        (if X = JUndefined then [] else [(js ''data'', json_val X)]))"
  have s: "storage w' k = Some (Json ?x)" using assms by (rule setCache_storage)
  have t: "get_prop ?x (js ''ts'') = JNum (Fin (of_int t0))" by simp
  show ?thesis
    unfolding getCache_entry [OF s t] by (simp add: key_ts_data)
qed

text \<open>
  Claim C4. After \<open>setCache(k, X)\<close> at time \<open>t0\<close>, for data \<open>X\<close> that JSON represents
  (every list of entries is such), \<open>getCache(k)\<close> at a time \<open>t1\<close> with \<open>t1 - t0 \<le> TTL\<close>
  returns \<open>X\<close>; the write succeeds unless the quota is exceeded; once \<open>t1 - t0\<close>
  exceeds \<open>TTL\<close> the read returns \<open>null\<close>, as it does for any stored entry whose
  timestamp (an integer of milliseconds, as \<open>setCache\<close> writes it) lies more than \<open>TTL\<close>
  before now; and \<open>TTL\<close> is seven days in milliseconds.
\<close>

theorem cache_roundtrip:
  "(is_json X \<and> setCache w t0 k X = Inr w' \<and> real_of_int t1 - real_of_int t0 \<le> TTL
      \<longrightarrow> getCache h w' t1 k = X)
   \<and> (\<not> quota_exceeded w \<longrightarrow> (\<exists>w'. setCache w t0 k X = Inr w'))
   \<and> (setCache w t0 k X = Inr w' \<and> real_of_int t1 - real_of_int t0 > TTL
      \<longrightarrow> getCache h w' t1 k = JNull)
   \<and> (storage w k = Some (Json x) \<and> get_prop x (js ''ts'') = JNum (Fin (real_of_int t)) \<and>
      real_of_int now - real_of_int t > TTL \<longrightarrow> getCache h w now k = JNull)
   \<and> TTL = 7 * 24 * 60 * 60 * 1000"
proof (intro conjI impI)
  assume a: "is_json X \<and> setCache w t0 k X = Inr w' \<and> real_of_int t1 - real_of_int t0 \<le> TTL"
  then have "X \<noteq> JUndefined" "json_val X = X"
    by (auto simp: is_json_val)
  with a show "getCache h w' t1 k = X"
    by (simp add: getCache_after_set [of w t0 k X w'])
next
  assume "\<not> quota_exceeded w"
  then show "\<exists>w'. setCache w t0 k X = Inr w'" by (rule setCache_ok)
next
  assume "setCache w t0 k X = Inr w' \<and> real_of_int t1 - real_of_int t0 > TTL"
  then show "getCache h w' t1 k = JNull"
    by (simp add: getCache_after_set [of w t0 k X w'])
next
  assume "storage w k = Some (Json x) \<and> get_prop x (js ''ts'') = JNum (Fin (real_of_int t)) \<and>
      real_of_int now - real_of_int t > TTL"
  then show "getCache h w now k = JNull"
    by (simp add: getCache_entry [of w k x t])
next
  show "TTL = 7 * 24 * 60 * 60 * 1000" by (simp add: TTL_def)
qed

lemma one_entry_json: "are_json one_entry"
  by (simp add: one_entry_def mk_entry_def)

lemma set_written: "setCache empty_world 1000 (js ''k'') (JArr one_entry) = Inr written_world"
  by (simp add: written_world_def setCache_def empty_world_def)

lemma cached_world_entry:
  "storage cached_world k = Some (Json (JObj [(js ''ts'', JNum (Fin 0)), (js ''data'', JArr [])]))"
  "get_prop (JObj [(js ''ts'', JNum (Fin 0)), (js ''data'', JArr [])]) (js ''ts'') = JNum (Fin 0)"
  by (simp_all add: cached_world_def empty_world_def)

theorem cache_roundtrip_witness:
  "setCache empty_world 1000 (js ''k'') (JArr one_entry) = Inr written_world
   \<and> getCache plain_host written_world 2000 (js ''k'') = JArr one_entry
   \<and> getCache plain_host written_world 604802000 (js ''k'') = JNull
   \<and> getCache plain_host cached_world 604800001 (js ''k'') = JNull"
proof -
  let ?x = "JObj [(js ''ts'', JNum (Fin 0)), (js ''data'', JArr [])]"
  have j: "is_json (JArr one_entry)" by (simp add: one_entry_json)
  have 1: "real_of_int 2000 - real_of_int 1000 \<le> TTL" by (simp add: TTL_def)
  have 2: "real_of_int 604802000 - real_of_int 1000 > TTL" by (simp add: TTL_def)
  have 3: "real_of_int 604800001 - real_of_int 0 > TTL" by (simp add: TTL_def)
  have 4: "get_prop ?x (js ''ts'') = JNum (Fin (real_of_int 0))" by simp
  have a: "getCache plain_host written_world 2000 (js ''k'') = JArr one_entry"
    using cache_roundtrip [where X = "JArr one_entry" and w = empty_world and ?t0.0 = 1000
        and k = "js ''k''" and w' = written_world and ?t1.0 = 2000 and h = plain_host]
      set_written j 1 by blast
  have b: "getCache plain_host written_world 604802000 (js ''k'') = JNull"
    using cache_roundtrip [where X = "JArr one_entry" and w = empty_world and ?t0.0 = 1000
        and k = "js ''k''" and w' = written_world and ?t1.0 = 604802000 and h = plain_host]
      set_written 2 by blast
  have c: "getCache plain_host cached_world 604800001 (js ''k'') = JNull"
    using cache_roundtrip [where w = cached_world and k = "js ''k''" and h = plain_host
        and x = ?x and t = 0 and now = 604800001]
      cached_world_entry(1) [of "js ''k''"] 3 4 by blast
  show ?thesis using set_written a b c by simp
qed










section \<open>Cache hit and static fallback, verified\<close>

lemma fetchCountries_hit:
  "truthy (getCache h w now (js ''countries.v1'')) \<Longrightarrow>
     fetchCountries h net w now now' = (getCache h w now (js ''countries.v1''), w)"
  by (simp add: fetchCountries_def)

lemma fetchLanguages_hit:
  "truthy (getCache h w now (js ''languages.v1'')) \<Longrightarrow>
     fetchLanguages h net w now now' = (getCache h w now (js ''languages.v1''), w)"
  by (simp add: fetchLanguages_def)

text \<open>
  Claim C9, as the code has it. When the cache returns truthy data for the key of a
  dataset (every list is truthy, the empty one too), the fetcher returns exactly that
  data and leaves the world as it was: no request is logged and nothing is written.
\<close>

theorem cache_hit_short_circuit:
  "(truthy (getCache h w now (js ''countries.v1'')) \<longrightarrow>
      fetchCountries h net w now now' = (getCache h w now (js ''countries.v1''), w))
   \<and> (truthy (getCache h w now (js ''languages.v1'')) \<longrightarrow>
      fetchLanguages h net w now now' = (getCache h w now (js ''languages.v1''), w))
   \<and> (getCache h w now (js ''countries.v1'') = JArr xs \<longrightarrow>
      fetchCountries h net w now now' = (JArr xs, w))
   \<and> (getCache h w now (js ''languages.v1'') = JArr xs \<longrightarrow>
      fetchLanguages h net w now now' = (JArr xs, w))"
  by (simp add: fetchCountries_hit fetchLanguages_hit)

theorem cache_hit_short_circuit_witness:
  "fetchCountries plain_host (\<lambda>u. FetchRejected) cached_world 5 6 = (JArr [], cached_world)
   \<and> fetchLanguages plain_host (\<lambda>u. FetchRejected) cached_world 5 6 = (JArr [], cached_world)"
proof -
  have c: "getCache plain_host cached_world 5 k = JArr []" for k
    by (simp add: getCache_def getCache_try_def cached_world_def empty_world_def toNumber_def js_def TTL_def)
  show ?thesis
    using cache_hit_short_circuit [of plain_host cached_world 5 "\<lambda>u. FetchRejected" 6 "[]"] c
    by simp
qed

text \<open>
  Claim C9 as stated fails: on the stored text \<open>{"ts":0,"data":""}\<close> the cache returns
  the empty string, which is not \<open>null\<close>, and \<open>fetchCountries\<close> issues the request.
\<close>

theorem cache_hit_nonnull_counterexample:
  "getCache plain_host falsy_world 0 (js ''countries.v1'') = JStr []
   \<and> JStr [] \<noteq> JNull
   \<and> fetchCountries plain_host (\<lambda>u. FetchRejected) falsy_world 0 0 =
       (countriesStub, request falsy_world countries_url)
   \<and> requests falsy_world = []
   \<and> requests (request falsy_world countries_url) = [countries_url]"
proof -
  have c: "getCache plain_host falsy_world 0 (js ''countries.v1'') = JStr []"
    by (simp add: getCache_def getCache_try_def falsy_world_def empty_world_def toNumber_def js_def TTL_def)
  have t: "countries_try plain_host FetchRejected (request falsy_world countries_url) 0 = Inl NetworkError"
    by (simp add: countries_try_def body_of_def)
  have f: "fetchCountries plain_host (\<lambda>u. FetchRejected) falsy_world 0 0 =
       (countriesStub, request falsy_world countries_url)"
    by (simp add: fetchCountries_def c t)
  have r: "requests falsy_world = []" by (simp add: falsy_world_def empty_world_def)
  show ?thesis by (simp add: c f r request_def)
qed

lemma stub_sizes:
  "\<exists>es. countriesStub = JArr es \<and> length es = 10"
  "\<exists>es. languagesStub = JArr es \<and> length es = 10"
  by (simp_all add: countriesStub_def languagesStub_def)

lemma request_frame: "storage (request w u) = storage w" "writes (request w u) = writes w"
  "quota_exceeded (request w u) = quota_exceeded w" "requests (request w u) = requests w @ [u]"
  by (simp_all add: request_def)

lemma countries_try_rejected:
  "resp = FetchRejected \<or> resp = JsonRejected \<Longrightarrow> \<exists>e. countries_try h resp w now = Inl e"
  by (auto simp: countries_try_def body_of_def)

lemma languages_try_rejected:
  "resp = FetchRejected \<or> resp = JsonRejected \<Longrightarrow> \<exists>e. languages_try h resp w now = Inl e"
  by (auto simp: languages_try_def body_of_def)

lemma countries_try_quota:
  "quota_exceeded w \<Longrightarrow> \<exists>e. countries_try h resp w now = Inl e"
  by (auto simp: countries_try_def setCache_def split: sum.splits)

lemma languages_try_quota:
  "quota_exceeded w \<Longrightarrow> \<exists>e. languages_try h resp w now = Inl e"
  by (auto simp: languages_try_def setCache_def split: sum.splits)

lemma map_js_fail: "\<not> list_all (\<lambda>x. \<not> isl (f x)) xs \<Longrightarrow> \<exists>e. map_js f xs = Inl e"
  by (induction xs) (auto split: sum.splits)

lemma country_entry_untyped:
  "\<not> is_str (get_prop r (js ''cca3'')) \<Longrightarrow> isl (country_entry h r)"
  by (auto simp: country_entry_def strict_prop_def is_str_def split: jsval.splits sum.splits)

lemma countries_try_untyped:
  assumes "\<not> list_all (\<lambda>r. is_str (get_prop r (js ''cca3''))) (filter keep_country rs)"
  shows "\<exists>e. countries_try h (Rows (JArr rs)) w now = Inl e"
proof -
  have "\<not> list_all (\<lambda>r. \<not> isl (country_entry h r)) (filter keep_country rs)"
    using assms country_entry_untyped [of _ h] unfolding list_all_iff by blast
  then obtain e where "map_js (country_entry h) (filter keep_country rs) = Inl e"
    using map_js_fail by blast
  then show ?thesis by (simp add: countries_try_def body_of_def countries_data_def)
qed

lemma countries_try_not_array:
  "(\<forall>rs. rows \<noteq> JArr rs) \<Longrightarrow> \<exists>e. countries_try h (Rows rows) w now = Inl e"
  by (cases rows) (auto simp: countries_try_def body_of_def countries_data_def)

lemma fetchCountries_fallback:
  "\<not> truthy (getCache h w now (js ''countries.v1'')) \<Longrightarrow>
   countries_try h (net countries_url) (request w countries_url) now' = Inl e \<Longrightarrow>
   fetchCountries h net w now now' = (countriesStub, request w countries_url)"
  by (simp add: fetchCountries_def)

lemma fetchLanguages_fallback:
  "\<not> truthy (getCache h w now (js ''languages.v1'')) \<Longrightarrow>
   languages_try h (net languages_url) (request w languages_url) now' = Inl e \<Longrightarrow>
   fetchLanguages h net w now now' = (languagesStub, request w languages_url)"
  by (simp add: fetchLanguages_def)

text \<open>
  Claim C8. When the cache misses and the request is rejected, the body is not JSON, or
  anything else in the \<open>try\<close> raises (in particular: the body is not an array, a kept
  row has a code that is not a string, the store refuses the write), the fetcher returns
  the stub of its dataset; the world it leaves differs from the one it found by the
  logged request only, so nothing was written; and each stub has ten entries. No error
  reaches the caller: the result is a value in every case.
\<close>

theorem static_fallback:
  "(\<not> truthy (getCache h w now (js ''countries.v1'')) \<and>
      (net countries_url = FetchRejected \<or> net countries_url = JsonRejected \<or>
       (\<exists>e. countries_try h (net countries_url) (request w countries_url) now' = Inl e))
      \<longrightarrow> fetchCountries h net w now now' = (countriesStub, request w countries_url))
   \<and> (\<not> truthy (getCache h w now (js ''languages.v1'')) \<and>
      (net languages_url = FetchRejected \<or> net languages_url = JsonRejected \<or>
       (\<exists>e. languages_try h (net languages_url) (request w languages_url) now' = Inl e))
      \<longrightarrow> fetchLanguages h net w now now' = (languagesStub, request w languages_url))
   \<and> (\<not> truthy (getCache h w now (js ''countries.v1'')) \<and>
      (quota_exceeded w \<or>
       (net countries_url = Rows rows \<and> (\<forall>rs. rows \<noteq> JArr rs)) \<or>
       (net countries_url = Rows (JArr rs) \<and>
        \<not> list_all (\<lambda>r. is_str (get_prop r (js ''cca3''))) (filter keep_country rs)))
      \<longrightarrow> fetchCountries h net w now now' = (countriesStub, request w countries_url))
   \<and> (\<not> truthy (getCache h w now (js ''languages.v1'')) \<and> quota_exceeded w
      \<longrightarrow> fetchLanguages h net w now now' = (languagesStub, request w languages_url))
   \<and> storage (request w u) = storage w \<and> writes (request w u) = writes w
   \<and> (\<exists>es. countriesStub = JArr es \<and> length es = 10)
   \<and> (\<exists>es. languagesStub = JArr es \<and> length es = 10)"
proof (intro conjI impI)
  assume a: "\<not> truthy (getCache h w now (js ''countries.v1'')) \<and>
      (quota_exceeded w \<or>
       (net countries_url = Rows rows \<and> (\<forall>rs. rows \<noteq> JArr rs)) \<or>
       (net countries_url = Rows (JArr rs) \<and>
        \<not> list_all (\<lambda>r. is_str (get_prop r (js ''cca3''))) (filter keep_country rs)))"
  have "\<exists>e. countries_try h (net countries_url) (request w countries_url) now' = Inl e"
  proof -
    consider "quota_exceeded w"
      | "net countries_url = Rows rows" "\<forall>rs. rows \<noteq> JArr rs"
      | "net countries_url = Rows (JArr rs)"
        "\<not> list_all (\<lambda>r. is_str (get_prop r (js ''cca3''))) (filter keep_country rs)"
      using a by blast
    then show ?thesis
    proof cases
      case 1
      then have "quota_exceeded (request w countries_url)" by (simp add: request_frame)
      then show ?thesis by (rule countries_try_quota)
    next
      case 2
      then show ?thesis using countries_try_not_array [of rows] by simp
    next
      case 3
      then show ?thesis using countries_try_untyped [of rs] by simp
    qed
  qed
  then obtain e where "countries_try h (net countries_url) (request w countries_url) now' = Inl e"
    by blast
  with a show "fetchCountries h net w now now' = (countriesStub, request w countries_url)"
    by (simp add: fetchCountries_fallback)
next
  assume a: "\<not> truthy (getCache h w now (js ''languages.v1'')) \<and> quota_exceeded w"
  then have "quota_exceeded (request w languages_url)" by (simp add: request_frame)
  then obtain e where "languages_try h (net languages_url) (request w languages_url) now' = Inl e"
    using languages_try_quota by blast
  with a show "fetchLanguages h net w now now' = (languagesStub, request w languages_url)"
    by (simp add: fetchLanguages_fallback)
next
  assume a: "\<not> truthy (getCache h w now (js ''countries.v1'')) \<and>
      (net countries_url = FetchRejected \<or> net countries_url = JsonRejected \<or>
       (\<exists>e. countries_try h (net countries_url) (request w countries_url) now' = Inl e))"
  then obtain e where "countries_try h (net countries_url) (request w countries_url) now' = Inl e"
    using countries_try_rejected [of "net countries_url" h "request w countries_url" now'] by blast
  with a show "fetchCountries h net w now now' = (countriesStub, request w countries_url)"
    by (simp add: fetchCountries_fallback)
next
  assume a: "\<not> truthy (getCache h w now (js ''languages.v1'')) \<and>
      (net languages_url = FetchRejected \<or> net languages_url = JsonRejected \<or>
       (\<exists>e. languages_try h (net languages_url) (request w languages_url) now' = Inl e))"
  then obtain e where "languages_try h (net languages_url) (request w languages_url) now' = Inl e"
    using languages_try_rejected [of "net languages_url" h "request w languages_url" now'] by blast
  with a show "fetchLanguages h net w now now' = (languagesStub, request w languages_url)"
    by (simp add: fetchLanguages_fallback)
qed (simp_all add: request_frame stub_sizes)

theorem static_fallback_witness:
  "fetchCountries plain_host (\<lambda>u. FetchRejected) empty_world 5 6 =
     (countriesStub, request empty_world countries_url)
   \<and> fetchLanguages plain_host (\<lambda>u. Rows (JNum (Fin 404))) empty_world 5 6 =
     (languagesStub, request empty_world languages_url)
   \<and> fetchCountries plain_host (\<lambda>u. Rows (JNum (Fin 404))) empty_world 5 6 =
     (countriesStub, request empty_world countries_url)
   \<and> fetchCountries plain_host (\<lambda>u. Rows (JArr [])) full_world 5 6 =
     (countriesStub, request full_world countries_url)
   \<and> fetchLanguages plain_host (\<lambda>u. Rows (JArr [])) full_world 5 6 =
     (languagesStub, request full_world languages_url)"
proof -
  have c: "\<not> truthy (getCache plain_host empty_world 5 k)" for k
    by (simp add: getCache_def getCache_try_def empty_world_def)
  have f: "\<not> truthy (getCache plain_host full_world 5 k)" for k
    by (simp add: getCache_def getCache_try_def full_world_def empty_world_def)
  have q: "quota_exceeded full_world" by (simp add: full_world_def)
  have l: "languages_try plain_host (Rows (JNum (Fin 404))) (request empty_world languages_url) 6 = Inl TypeError"
    by (simp add: languages_try_def body_of_def languages_data_def iterate_def)
  have n: "\<forall>rs. JNum (Fin 404) \<noteq> JArr rs" by simp
  have 1: "fetchCountries plain_host (\<lambda>u. FetchRejected) empty_world 5 6 =
     (countriesStub, request empty_world countries_url)"
    using static_fallback [where h = plain_host and w = empty_world and now = 5
        and net = "\<lambda>u. FetchRejected" and now' = 6] c by blast
  have 2: "fetchLanguages plain_host (\<lambda>u. Rows (JNum (Fin 404))) empty_world 5 6 =
     (languagesStub, request empty_world languages_url)"
    using static_fallback [where h = plain_host and w = empty_world and now = 5
        and net = "\<lambda>u. Rows (JNum (Fin 404))" and now' = 6] c l by blast
  have 3: "fetchCountries plain_host (\<lambda>u. Rows (JNum (Fin 404))) empty_world 5 6 =
     (countriesStub, request empty_world countries_url)"
    using static_fallback [where h = plain_host and w = empty_world and now = 5
        and net = "\<lambda>u. Rows (JNum (Fin 404))" and now' = 6 and rows = "JNum (Fin 404)"] c n
    by blast
  have 4: "fetchCountries plain_host (\<lambda>u. Rows (JArr [])) full_world 5 6 =
     (countriesStub, request full_world countries_url)"
    using static_fallback [where h = plain_host and w = full_world and now = 5
        and net = "\<lambda>u. Rows (JArr [])" and now' = 6] f q by blast
  have 5: "fetchLanguages plain_host (\<lambda>u. Rows (JArr [])) full_world 5 6 =
     (languagesStub, request full_world languages_url)"
    using static_fallback [where h = plain_host and w = full_world and now = 5
        and net = "\<lambda>u. Rows (JArr [])" and now' = 6] f q by blast
  show ?thesis using 1 2 3 4 5 by simp
qed

section \<open>Sorting by name, verified\<close>

lemma key_code_name: "js ''code'' \<noteq> js ''name''" "js ''name'' \<noteq> js ''code''"
  by (simp_all add: js_def)

lemma name_of_entry: "get_prop (mk_entry c n) (js ''name'') = n"
  by (simp add: mk_entry_def key_code_name)

lemma named_obtain:
  assumes "named a" obtains s where "get_prop a (js ''name'') = JStr s"
  using assms by (auto simp: named_def is_str_def split: jsval.splits)

lemma cmp_name_str:
  "get_prop a (js ''name'') = JStr s \<Longrightarrow>
     cmp_name h a b = Inr (localeCompare h s (get_prop b (js ''name'')))"
  by (simp add: cmp_name_def)

lemma name_le_str:
  "get_prop a (js ''name'') = JStr s \<Longrightarrow>
     name_le h a b \<longleftrightarrow> localeCompare h s (get_prop b (js ''name'')) \<le> 0"
  by (simp add: name_le_def)

lemma name_le_total:
  assumes "collation_ok h" "named a" "named b"
  shows "name_le h a b \<or> name_le h b a"
proof -
  obtain s where s: "get_prop a (js ''name'') = JStr s" using assms(2) by (rule named_obtain)
  obtain t where t: "get_prop b (js ''name'') = JStr t" using assms(3) by (rule named_obtain)
  have "localeCompare h s (JStr t) \<le> 0 \<or> localeCompare h t (JStr s) \<le> 0"
    using assms(1) unfolding collation_ok_def by blast
  then show ?thesis by (simp add: name_le_str [OF s] name_le_str [OF t] s t)
qed

lemma name_le_trans:
  assumes "collation_ok h" "named a" "named b" "named c" "name_le h a b" "name_le h b c"
  shows "name_le h a c"
proof -
  obtain s where s: "get_prop a (js ''name'') = JStr s" using assms(2) by (rule named_obtain)
  obtain t where t: "get_prop b (js ''name'') = JStr t" using assms(3) by (rule named_obtain)
  obtain u where u: "get_prop c (js ''name'') = JStr u" using assms(4) by (rule named_obtain)
  have 1: "localeCompare h s (JStr t) \<le> 0" using assms(5) by (simp add: name_le_str [OF s] t)
  have 2: "localeCompare h t (JStr u) \<le> 0" using assms(6) by (simp add: name_le_str [OF t] u)
  have "localeCompare h s (JStr u) \<le> 0"
    using assms(1) 1 2 unfolding collation_ok_def by blast
  then show ?thesis by (simp add: name_le_str [OF s] u)
qed

lemma insert_cmp_mset:
  assumes "named x"
  shows "\<exists>zs. insert_cmp (cmp_name h) x ys = Inr zs \<and> mset zs = add_mset x (mset ys)"
proof -
  obtain s where s: "get_prop x (js ''name'') = JStr s" using assms by (rule named_obtain)
  show ?thesis
  proof (induction ys)
    case Nil
    then show ?case by simp
  next
    case (Cons y ys)
    then obtain zs where zs: "insert_cmp (cmp_name h) x ys = Inr zs" "mset zs = add_mset x (mset ys)"
      by blast
    show ?case using zs by (simp add: cmp_name_str [OF s])
  qed
qed

lemma insert_cmp_set:
  assumes "named x" "insert_cmp (cmp_name h) x ys = Inr zs"
  shows "set zs = insert x (set ys)"
proof -
  obtain zs' where "insert_cmp (cmp_name h) x ys = Inr zs'" "mset zs' = add_mset x (mset ys)"
    using insert_cmp_mset [OF assms(1)] by blast
  with assms(2) have "mset zs = add_mset x (mset ys)" by simp
  then have "set_mset (mset zs) = set_mset (add_mset x (mset ys))" by simp
  then show ?thesis by simp
qed

lemma insert_cmp_sorted:
  assumes "collation_ok h" "named x"
  shows "list_all named ys \<Longrightarrow> sorted_wrt (name_le h) ys \<Longrightarrow>
         insert_cmp (cmp_name h) x ys = Inr zs \<Longrightarrow> sorted_wrt (name_le h) zs"
proof (induction ys arbitrary: zs)
  case Nil
  then show ?case by auto
next
  case (Cons y ys)
  obtain s where s: "get_prop x (js ''name'') = JStr s" using assms(2) by (rule named_obtain)
  let ?v = "localeCompare h s (get_prop y (js ''name''))"
  have c: "cmp_name h x y = Inr ?v" using s by (rule cmp_name_str)
  have ny: "named y" and nys: "list_all named ys" using Cons.prems(1) by simp_all
  have sy: "sorted_wrt (name_le h) ys" and yz: "\<And>z. z \<in> set ys \<Longrightarrow> name_le h y z"
    using Cons.prems(2) by simp_all
  show ?case
  proof (cases "?v \<le> 0")
    case True
    then have zs: "zs = x # y # ys" using Cons.prems(3) c by simp
    have xy: "name_le h x y" using True by (simp add: name_le_str [OF s])
    have xz: "name_le h x z" if "z \<in> set ys" for z
    proof -
      have "named z" using nys that by (simp add: list_all_iff)
      then show ?thesis using name_le_trans [OF assms(1) assms(2) ny _ xy yz [OF that]] by simp
    qed
    show ?thesis unfolding zs using xy xz yz sy by simp
  next
    case False
    then obtain zs' where zs': "insert_cmp (cmp_name h) x ys = Inr zs'" "zs = y # zs'"
      using Cons.prems(3) c by (simp split: sum.splits)
    have s': "sorted_wrt (name_le h) zs'"
      using Cons.IH [OF nys sy zs'(1)] .
    have set': "set zs' = insert x (set ys)"
      using insert_cmp_set [OF assms(2) zs'(1)] .
    have "\<not> name_le h x y" using False by (simp add: name_le_str [OF s])
    then have yx: "name_le h y x"
      using name_le_total [OF assms(1) assms(2) ny] by blast
    show ?thesis unfolding zs'(2) using s' set' yx yz by simp
  qed
qed

lemma sort_cmp_named:
  assumes "collation_ok h"
  shows "list_all named xs \<Longrightarrow>
    \<exists>zs. sort_cmp (cmp_name h) xs = Inr zs \<and> mset zs = mset xs \<and> sorted_wrt (name_le h) zs"
proof (induction xs)
  case Nil
  then show ?case by simp
next
  case (Cons x xs)
  have nx: "named x" and nxs: "list_all named xs" using Cons.prems by simp_all
  obtain ys where ys: "sort_cmp (cmp_name h) xs = Inr ys" "mset ys = mset xs"
      "sorted_wrt (name_le h) ys" using Cons.IH [OF nxs] by blast
  have "set_mset (mset ys) = set_mset (mset xs)" using ys(2) by simp
  then have "set ys = set xs" by simp
  then have nys: "list_all named ys" using nxs by (simp add: list_all_iff)
  obtain zs where zs: "insert_cmp (cmp_name h) x ys = Inr zs" "mset zs = add_mset x (mset ys)"
    using insert_cmp_mset [OF nx] by blast
  have "sorted_wrt (name_le h) zs"
    using insert_cmp_sorted [OF assms nx nys ys(3) zs(1)] .
  then show ?case using ys zs by simp
qed

lemma cmp_ok_named: "list_all named es \<Longrightarrow> cmp_ok (cmp_name h) es"
proof -
  assume a: "list_all named es"
  have "\<not> isl (cmp_name h x y)" if nx: "named x" for x y
  proof -
    obtain s where "get_prop x (js ''name'') = JStr s" using nx by (rule named_obtain)
    then show ?thesis by (simp add: cmp_name_str)
  qed
  then show ?thesis using a by (simp add: cmp_ok_def list_all_iff)
qed

lemma sort_js_named:
  assumes "collation_ok h" "list_all named xs"
  shows "\<exists>zs. sort_js h (cmp_name h) xs = Inr zs \<and> mset zs = mset xs \<and> sorted_wrt (name_le h) zs"
proof (cases xs)
  case Nil
  then show ?thesis by (simp add: sort_js_def)
next
  case (Cons a as)
  show ?thesis
  proof (cases as)
    case Nil
    then show ?thesis using Cons by (simp add: sort_js_def)
  next
    case (Cons b rest)
    have "sort_js h (cmp_name h) xs = sort_cmp (cmp_name h) xs"
      using \<open>xs = a # as\<close> Cons cmp_ok_named [OF assms(2), of h] by (simp add: sort_js_def)
    then show ?thesis using sort_cmp_named [OF assms] by simp
  qed
qed

section \<open>The languages loops, verified\<close>

lemma keys_filter_neq: "fst ` set (filter (\<lambda>p. fst p \<noteq> k) kvs) = fst ` set kvs - {k}"
  by (induction kvs) auto

lemma keys_first_wins: "fst ` set (first_wins kvs) = fst ` set kvs"
proof (induction kvs rule: first_wins.induct)
  case 1
  then show ?case by simp
next
  case (2 kv kvs)
  then show ?case
    by (simp only: first_wins.simps list.set image_insert keys_filter_neq) auto
qed

lemma set_first_wins: "set (first_wins kvs) \<subseteq> set kvs"
  by (induction kvs rule: first_wins.induct) auto

lemma distinct_first_wins: "distinct (map fst (first_wins kvs))"
proof (induction kvs rule: first_wins.induct)
  case 1
  then show ?case by simp
next
  case (2 kv kvs)
  have "fst kv \<notin> fst ` set (first_wins (filter (\<lambda>p. fst p \<noteq> fst kv) kvs))"
    by (simp only: keys_first_wins keys_filter_neq) simp
  with 2 show ?case by simp
qed

lemma map_of_filter_neq: "k \<noteq> k' \<Longrightarrow> map_of (filter (\<lambda>p. fst p \<noteq> k') kvs) k = map_of kvs k"
  by (induction kvs) auto

lemma map_of_first_wins: "map_of (first_wins kvs) = map_of kvs"
proof (induction kvs rule: first_wins.induct)
  case 1
  then show ?case by simp
next
  case (2 kv kvs)
  show ?case
  proof
    fix k
    show "map_of (first_wins (kv # kvs)) k = map_of (kv # kvs) k"
      using 2 by (cases kv) (auto simp: map_of_filter_neq)
  qed
qed

lemma filter_keys_step:
  "filter (\<lambda>p. fst p \<notin> K \<union> {k}) ys = filter (\<lambda>p. fst p \<noteq> k) (filter (\<lambda>p. fst p \<notin> K) ys)"
  by (induction ys) auto

lemma filter_keys_union:
  "filter (\<lambda>p. fst p \<notin> K \<union> L) ys = filter (\<lambda>p. fst p \<notin> L) (filter (\<lambda>p. fst p \<notin> K) ys)"
  by (induction ys) auto

lemma filter_keys_restrict:
  "filter (\<lambda>p. fst p \<notin> L - {k}) (filter (\<lambda>p. fst p \<noteq> k) ys) =
   filter (\<lambda>p. fst p \<notin> insert k L) ys"
  by (induction ys) auto

lemma first_wins_append:
  "first_wins (xs @ ys) = first_wins xs @ first_wins (filter (\<lambda>p. fst p \<notin> fst ` set xs) ys)"
proof (induction xs arbitrary: ys rule: first_wins.induct)
  case 1
  then show ?case by simp
next
  case (2 kv kvs)
  let ?F = "filter (\<lambda>p. fst p \<noteq> fst kv)"
  have "first_wins ((kv # kvs) @ ys) = kv # first_wins (?F kvs @ ?F ys)"
    by simp
  also have "\<dots> = kv # first_wins (?F kvs) @
      first_wins (filter (\<lambda>p. fst p \<notin> fst ` set (?F kvs)) (?F ys))"
    by (simp only: 2 [of "?F ys"] append_Cons)
  also have "filter (\<lambda>p. fst p \<notin> fst ` set (?F kvs)) (?F ys) =
      filter (\<lambda>p. fst p \<notin> fst ` set (kv # kvs)) ys"
    by (simp only: keys_filter_neq filter_keys_restrict list.set image_insert)
  finally show ?case by simp
qed

lemma add_langs_Cons:
  "add_langs h m ((code, nm) # es) =
     (if \<not> ok_pair (toLowerCase h code, nm) then add_langs h m es
      else if toLowerCase h code \<notin> fst ` set m then add_langs h (m @ [(toLowerCase h code, nm)]) es
      else add_langs h m es)"
  by (simp add: Let_def or_empty_def test_class_n_iff ok_pair_def map_has_def map_set_def)

lemma add_langs_eq:
  "add_langs h m es =
     m @ first_wins (filter (\<lambda>p. fst p \<notin> fst ` set m) (filter ok_pair (map (lower_pair h) es)))"
proof (induction es arbitrary: m)
  case Nil
  then show ?case by simp
next
  case (Cons e es)
  obtain code nm where e: "e = (code, nm)" by (cases e)
  let ?c = "toLowerCase h code"
  let ?A = "filter ok_pair (map (lower_pair h) es)"
  have A: "filter ok_pair (map (lower_pair h) (e # es)) =
      (if ok_pair (?c, nm) then (?c, nm) # ?A else ?A)"
    by (simp add: e lower_pair_def)
  show ?case
  proof (cases "ok_pair (?c, nm)")
    case False
    then show ?thesis
      unfolding e add_langs_Cons A [unfolded e] using Cons [of m] by simp
  next
    case ok: True
    show ?thesis
    proof (cases "?c \<in> fst ` set m")
      case True
      then show ?thesis
        unfolding e add_langs_Cons A [unfolded e] using Cons [of m] ok by simp
    next
      case False
      have k: "fst ` set (m @ [(?c, nm)]) = fst ` set m \<union> {?c}" by simp
      have "add_langs h m (e # es) = add_langs h (m @ [(?c, nm)]) es"
        unfolding e add_langs_Cons using ok False by simp
      also have "\<dots> = (m @ [(?c, nm)]) @
          first_wins (filter (\<lambda>p. fst p \<notin> fst ` set (m @ [(?c, nm)])) ?A)"
        by (rule Cons)
      also have "\<dots> = m @ (?c, nm) #
          first_wins (filter (\<lambda>p. fst p \<noteq> ?c) (filter (\<lambda>p. fst p \<notin> fst ` set m) ?A))"
        by (simp only: k filter_keys_step append_assoc append_Cons append_Nil)
      also have "\<dots> = m @ first_wins ((?c, nm) # filter (\<lambda>p. fst p \<notin> fst ` set m) ?A)"
        by simp
      also have "(?c, nm) # filter (\<lambda>p. fst p \<notin> fst ` set m) ?A =
          filter (\<lambda>p. fst p \<notin> fst ` set m) (filter ok_pair (map (lower_pair h) (e # es)))"
        unfolding A using ok False by simp
      finally show ?thesis .
    qed
  qed
qed

lemma accepted_Cons:
  "accepted_langs h (r # rs) =
     filter ok_pair (map (lower_pair h) (object_entries (js_or (opt_prop r (js ''languages'')) (JObj []))))
     @ accepted_langs h rs"
proof -
  have "ok_pair = (\<lambda>kv. length (fst kv) = 3 \<and> list_all is_lower_latin (fst kv))"
    by (rule ext) (simp add: ok_pair_def)
  moreover have "lower_pair h = (\<lambda>kv. (toLowerCase h (fst kv), snd kv))"
    by (rule ext) (simp add: lower_pair_def)
  ultimately show ?thesis by (simp add: accepted_langs_def lang_pairs_def)
qed

lemma scan_rows_gen:
  "scan_rows h m rs =
     m @ first_wins (filter (\<lambda>p. fst p \<notin> fst ` set m) (accepted_langs h rs))"
proof (induction rs arbitrary: m)
  case Nil
  then show ?case by (simp add: accepted_langs_def lang_pairs_def)
next
  case (Cons r rs)
  let ?A = "filter ok_pair (map (lower_pair h) (object_entries (js_or (opt_prop r (js ''languages'')) (JObj []))))"
  let ?F = "filter (\<lambda>p. fst p \<notin> fst ` set m)"
  let ?m1 = "m @ first_wins (?F ?A)"
  let ?B = "accepted_langs h rs"
  have k: "fst ` set ?m1 = fst ` set m \<union> fst ` set (?F ?A)"
    by (simp add: image_Un keys_first_wins)
  have "scan_rows h m (r # rs) = scan_rows h ?m1 rs"
    by (simp add: Let_def add_langs_eq)
  also have "\<dots> = ?m1 @ first_wins (filter (\<lambda>p. fst p \<notin> fst ` set ?m1) ?B)"
    by (rule Cons)
  also have "filter (\<lambda>p. fst p \<notin> fst ` set ?m1) ?B =
      filter (\<lambda>p. fst p \<notin> fst ` set (?F ?A)) (?F ?B)"
    by (simp only: k filter_keys_union)
  also have "?m1 @ first_wins (filter (\<lambda>p. fst p \<notin> fst ` set (?F ?A)) (?F ?B)) =
      m @ first_wins (?F ?A @ ?F ?B)"
    by (simp only: first_wins_append append_assoc)
  also have "?F ?A @ ?F ?B = ?F (accepted_langs h (r # rs))"
    by (simp only: accepted_Cons filter_append)
  finally show ?case .
qed

lemma scan_rows_eq: "scan_rows h [] rs = first_wins (accepted_langs h rs)"
  by (simp add: scan_rows_gen)

section \<open>The fetchers, verified\<close>

lemma are_json_iff: "are_json xs \<longleftrightarrow> list_all is_json xs"
  by (induction xs) auto

lemma map_js_all:
  "list_all (\<lambda>x. f x = Inr (g x)) xs \<Longrightarrow> map_js f xs = Inr (map g xs)"
  by (induction xs) auto

lemma keep_country_iff:
  "keep_country r \<longleftrightarrow>
     truthy (opt_prop r (js ''cca3'')) \<and> truthy (opt_prop (opt_prop r (js ''name'')) (js ''common''))"
  by (simp add: keep_country_def js_and_def)

lemma keep_country_props:
  assumes "keep_country r"
  shows "\<not> nullish r" "\<not> nullish (get_prop r (js ''name''))"
proof -
  have a: "truthy (opt_prop r (js ''cca3''))"
    and b: "truthy (opt_prop (opt_prop r (js ''name'')) (js ''common''))"
    using assms by (simp_all add: keep_country_iff)
  show 1: "\<not> nullish r" using a by (auto simp: opt_prop_def)
  have "\<not> nullish (opt_prop r (js ''name''))" using b by (auto simp: opt_prop_def [of "opt_prop r (js ''name'')"])
  then show "\<not> nullish (get_prop r (js ''name''))" using 1 by (simp add: opt_prop_def)
qed

lemma country_entry_typed:
  assumes "keep_country r" "typed_country r"
  shows "country_entry h r = Inr (entry_of h r)"
proof -
  obtain s where s: "get_prop r (js ''cca3'') = JStr s"
    using assms(2) by (auto simp: typed_country_def is_str_def split: jsval.splits)
  show ?thesis
    using keep_country_props [OF assms(1)]
    by (simp add: country_entry_def strict_prop_def s entry_of_def the_str_def)
qed

lemma entry_named: "typed_country r \<Longrightarrow> named (entry_of h r)"
  by (simp add: named_def entry_of_def name_of_entry typed_country_def)

lemma entry_json: "typed_country r \<Longrightarrow> is_json (entry_of h r)"
  by (auto simp: entry_of_def mk_entry_def typed_country_def is_str_def split: jsval.splits)

lemma mset_list_all:
  assumes "mset ys = mset xs" "list_all P xs" shows "list_all P ys"
proof -
  have "set_mset (mset ys) = set_mset (mset xs)" using assms(1) by simp
  then have "set ys = set xs" by simp
  then show ?thesis using assms(2) by (simp add: list_all_iff)
qed

lemma countries_data_typed:
  assumes "collation_ok h" "list_all typed_country (filter keep_country rs)"
  shows "\<exists>data. countries_data h (JArr rs) = Inr data
           \<and> mset data = mset (map (entry_of h) (filter keep_country rs))
           \<and> sorted_by_name h data \<and> are_json data"
proof -
  let ?K = "filter keep_country rs"
  have "list_all (\<lambda>r. country_entry h r = Inr (entry_of h r)) ?K"
    using assms(2) by (simp add: list_all_iff country_entry_typed)
  then have m: "map_js (country_entry h) ?K = Inr (map (entry_of h) ?K)"
    by (rule map_js_all)
  have n: "list_all named (map (entry_of h) ?K)"
    using assms(2) by (simp add: list_all_iff entry_named)
  have j: "list_all is_json (map (entry_of h) ?K)"
    using assms(2) by (simp add: list_all_iff entry_json)
  obtain data where d: "sort_js h (cmp_name h) (map (entry_of h) ?K) = Inr data"
      "mset data = mset (map (entry_of h) ?K)" "sorted_wrt (name_le h) data"
    using sort_js_named [OF assms(1) n] by blast
  have "are_json data" unfolding are_json_iff using d(2) j by (rule mset_list_all)
  then show ?thesis using d by (simp add: countries_data_def m sorted_by_name_def)
qed

lemma setCache_json_list:
  assumes "are_json data" "\<not> quota_exceeded w"
  shows "setCache w now key (JArr data) =
     Inr (w\<lparr> storage := (storage w)(key \<mapsto> Json (JObj [(js ''ts'', JNum (Fin (of_int now))),
                                                            (js ''data'', JArr data)])),
             writes := writes w @ [key] \<rparr>)"
  using assms by (simp add: setCache_def json_val_id(2))

lemma fetchCountries_success:
  assumes "\<not> truthy (getCache h w now (js ''countries.v1''))"
    "net countries_url = Rows rows" "countries_data h rows = Inr data" "are_json data"
    "\<not> quota_exceeded w"
  shows "fetchCountries h net w now now' =
     (JArr data, wrote w countries_url (js ''countries.v1'') now' (JArr data))"
proof -
  have q: "\<not> quota_exceeded (request w countries_url)" using assms(5) by (simp add: request_def)
  have s: "setCache (request w countries_url) now' (js ''countries.v1'') (JArr data) =
      Inr (wrote w countries_url (js ''countries.v1'') now' (JArr data))"
    unfolding setCache_json_list [OF assms(4) q] by (simp add: wrote_def request_def)
  show ?thesis
    using assms(1) by (simp add: fetchCountries_def countries_try_def body_of_def assms(2,3) s)
qed

lemma fetchLanguages_success:
  assumes "\<not> truthy (getCache h w now (js ''languages.v1''))"
    "net languages_url = Rows rows" "languages_data h rows = Inr data" "are_json data"
    "\<not> quota_exceeded w"
  shows "fetchLanguages h net w now now' =
     (JArr data, wrote w languages_url (js ''languages.v1'') now' (JArr data))"
proof -
  have q: "\<not> quota_exceeded (request w languages_url)" using assms(5) by (simp add: request_def)
  have s: "setCache (request w languages_url) now' (js ''languages.v1'') (JArr data) =
      Inr (wrote w languages_url (js ''languages.v1'') now' (JArr data))"
    unfolding setCache_json_list [OF assms(4) q] by (simp add: wrote_def request_def)
  show ?thesis
    using assms(1) by (simp add: fetchLanguages_def languages_try_def body_of_def assms(2,3) s)
qed

text \<open>
  Claim C6, as the code has it. On a cache miss, for an array of rows fetched
  successfully in which every kept row has a string code and a string common name, with
  a collation that is a total preorder and a store that accepts the write,
  \<open>fetchCountries\<close> keeps the rows whose \<open>cca3\<close> and \<open>name.common\<close> are both truthy
  (the length of the code is not tested), maps each to
  \<open>{code: uppercase(cca3), name: name.common}\<close>, keeps every one of them (there is no
  deduplication: the result is a permutation of the mapped rows), sorts them ascending
  by name, writes the list under \<open>countries.v1\<close> with the time of the write, and returns
  it.
\<close>

theorem countries_pipeline:
  "(\<not> truthy (getCache h w now (js ''countries.v1'')) \<and> net countries_url = Rows (JArr rs) \<and>
      list_all typed_country (filter keep_country rs) \<and> collation_ok h \<and> \<not> quota_exceeded w
    \<longrightarrow> (\<exists>data. fetchCountries h net w now now' =
                  (JArr data, wrote w countries_url (js ''countries.v1'') now' (JArr data))
          \<and> mset data = mset (map (entry_of h) (filter keep_country rs))
          \<and> sorted_by_name h data))
   \<and> keep_country r =
       (truthy (opt_prop r (js ''cca3'')) \<and>
        truthy (opt_prop (opt_prop r (js ''name'')) (js ''common'')))"
proof (intro conjI impI)
  assume a: "\<not> truthy (getCache h w now (js ''countries.v1'')) \<and> net countries_url = Rows (JArr rs) \<and>
      list_all typed_country (filter keep_country rs) \<and> collation_ok h \<and> \<not> quota_exceeded w"
  then obtain data where d: "countries_data h (JArr rs) = Inr data"
      "mset data = mset (map (entry_of h) (filter keep_country rs))"
      "sorted_by_name h data" "are_json data"
    using countries_data_typed [of h rs] by blast
  have "fetchCountries h net w now now' =
      (JArr data, wrote w countries_url (js ''countries.v1'') now' (JArr data))"
    using a d(1,4) by (intro fetchCountries_success) simp_all
  with d show "\<exists>data. fetchCountries h net w now now' =
                  (JArr data, wrote w countries_url (js ''countries.v1'') now' (JArr data))
          \<and> mset data = mset (map (entry_of h) (filter keep_country rs))
          \<and> sorted_by_name h data" by blast
next
  show "keep_country r =
       (truthy (opt_prop r (js ''cca3'')) \<and>
        truthy (opt_prop (opt_prop r (js ''name'')) (js ''common'')))"
    by (rule keep_country_iff)
qed

lemma collation_ok_unit: "collation_ok unit_host"
  by (auto simp: collation_ok_def unit_host_def plain_host_def)

lemma empty_world_miss: "\<not> truthy (getCache h empty_world now k)"
  by (simp add: getCache_def getCache_try_def empty_world_def)

lemma sample_countries_kept:
  "filter keep_country sample_countries = [country_row ''fra'' ''France'', country_row ''bra'' ''Brazil'']"
  by (simp add: sample_countries_def keep_country_def country_row_def js_and_def opt_prop_def
      nullish_def js_def)

lemma country_row_typed: "typed_country (country_row c n)"
  by (simp add: typed_country_def country_row_def is_str_def js_def)

theorem countries_pipeline_witness:
  "\<exists>data. fetchCountries unit_host (\<lambda>u. Rows (JArr sample_countries)) empty_world 5 6 =
            (JArr data, wrote empty_world countries_url (js ''countries.v1'') 6 (JArr data))
     \<and> mset data = mset (map (entry_of unit_host) (filter keep_country sample_countries))
     \<and> sorted_by_name unit_host data"
proof -
  have t: "list_all typed_country (filter keep_country sample_countries)"
    unfolding sample_countries_kept by (simp add: country_row_typed)
  have q: "\<not> quota_exceeded empty_world" by (simp add: empty_world_def)
  show ?thesis
    using countries_pipeline [of unit_host empty_world 5 "\<lambda>u. Rows (JArr sample_countries)"
        sample_countries 6] t q collation_ok_unit empty_world_miss [of unit_host 5]
    by blast
qed

text \<open>
  Claim C6 as stated fails: two equal rows with the two-letter code \<open>us\<close> are both kept,
  so the result holds a code that is not three letters, twice.
\<close>

theorem countries_dedup_counterexample:
  "fst (fetchCountries plain_host
         (\<lambda>u. Rows (JArr [country_row ''us'' ''A'', country_row ''us'' ''A''])) empty_world 0 0) =
     JArr [mk_entry (js ''US'') (JStr (js ''A'')), mk_entry (js ''US'') (JStr (js ''A''))]"
proof -
  let ?r = "country_row ''us'' ''A''"
  have k: "keep_country ?r"
    by (simp add: keep_country_def country_row_def js_and_def opt_prop_def nullish_def js_def)
  have e: "country_entry plain_host ?r = Inr (mk_entry (js ''US'') (JStr (js ''A'')))"
    by (simp add: country_entry_def strict_prop_def nullish_def country_row_def toUpperCase_def
        is_ascii_def ascii_upper_def is_lower_latin_def js_def)
  have c: "cmp_name plain_host (mk_entry a (JStr s)) b = Inr 0" for a s b
    by (simp add: cmp_name_def name_of_entry plain_host_def)
  have d: "countries_data plain_host (JArr [?r, ?r]) =
      Inr [mk_entry (js ''US'') (JStr (js ''A'')), mk_entry (js ''US'') (JStr (js ''A''))]"
    by (simp add: countries_data_def k e c sort_js_def cmp_ok_def)
  have j: "are_json [mk_entry (js ''US'') (JStr (js ''A'')), mk_entry (js ''US'') (JStr (js ''A''))]"
    by (simp add: mk_entry_def)
  have q: "\<not> quota_exceeded empty_world" by (simp add: empty_world_def)
  show ?thesis
    by (simp add: fetchCountries_success [OF empty_world_miss _ d j q])
qed

lemma pair_named: "is_str (snd kv) \<Longrightarrow> named (mk_entry (fst kv) (snd kv))"
  by (simp add: named_def name_of_entry)

lemma pair_json: "is_str (snd kv) \<Longrightarrow> is_json (mk_entry (fst kv) (snd kv))"
  by (auto simp: mk_entry_def is_str_def split: jsval.splits)

lemma languages_data_typed:
  assumes "collation_ok h" "list_all (\<lambda>kv. is_str (snd kv)) (first_wins (accepted_langs h rs))"
  shows "\<exists>data. languages_data h (JArr rs) = Inr data
           \<and> mset data = mset (map (\<lambda>kv. mk_entry (fst kv) (snd kv)) (first_wins (accepted_langs h rs)))
           \<and> sorted_by_name h data \<and> are_json data"
proof -
  let ?E = "map (\<lambda>kv. mk_entry (fst kv) (snd kv)) (first_wins (accepted_langs h rs))"
  have n: "list_all named ?E" using assms(2) by (simp add: list_all_iff pair_named)
  have j: "list_all is_json ?E" using assms(2) by (simp add: list_all_iff pair_json)
  obtain data where d: "sort_js h (cmp_name h) ?E = Inr data" "mset data = mset ?E"
      "sorted_wrt (name_le h) data"
    using sort_js_named [OF assms(1) n] by blast
  have "are_json data" unfolding are_json_iff using d(2) j by (rule mset_list_all)
  then show ?thesis using d by (simp add: languages_data_def iterate_def scan_rows_eq sorted_by_name_def)
qed

text \<open>
  Claim C7, as the code has it. For rows fetched successfully, the loops of
  \<open>fetchLanguages\<close> build exactly
  the first-wins list of the accepted pairs: every row contributes the pairs of its
  language map, a pair is accepted when its lowercased code is three lowercase letters,
  each accepted code occurs once and carries the first name met for it. When these names
  are strings and the collation is a total preorder, the data is a permutation of the
  entries of that list, sorted ascending by name, and on a cache miss with a store that
  accepts the write it is what \<open>fetchLanguages\<close> caches and returns.
\<close>

theorem languages_transform:
  "(list_all (\<lambda>kv. is_str (snd kv)) (first_wins (accepted_langs h rs)) \<and> collation_ok h
      \<longrightarrow> (\<exists>data. languages_data h (JArr rs) = Inr data
            \<and> mset data = mset (map (\<lambda>kv. mk_entry (fst kv) (snd kv))
                                     (first_wins (accepted_langs h rs)))
            \<and> sorted_by_name h data
            \<and> (\<not> truthy (getCache h w now (js ''languages.v1'')) \<and>
               net languages_url = Rows (JArr rs) \<and> \<not> quota_exceeded w
               \<longrightarrow> fetchLanguages h net w now now' =
                     (JArr data, wrote w languages_url (js ''languages.v1'') now' (JArr data)))))
   \<and> scan_rows h [] rs = first_wins (accepted_langs h rs)
   \<and> map_of (first_wins (accepted_langs h rs)) = map_of (accepted_langs h rs)
   \<and> distinct (map fst (first_wins (accepted_langs h rs)))
   \<and> fst ` set (first_wins (accepted_langs h rs)) = fst ` set (accepted_langs h rs)
   \<and> set (first_wins (accepted_langs h rs)) \<subseteq> set (accepted_langs h rs)
   \<and> accepted_langs h rs =
       filter (\<lambda>kv. length (fst kv) = 3 \<and> list_all is_lower_latin (fst kv)) (lang_pairs h rs)"
proof (intro conjI impI)
  assume a: "list_all (\<lambda>kv. is_str (snd kv)) (first_wins (accepted_langs h rs)) \<and> collation_ok h"
  then obtain data where d: "languages_data h (JArr rs) = Inr data"
      "mset data = mset (map (\<lambda>kv. mk_entry (fst kv) (snd kv)) (first_wins (accepted_langs h rs)))"
      "sorted_by_name h data" "are_json data"
    using languages_data_typed [of h rs] by blast
  have "\<not> truthy (getCache h w now (js ''languages.v1'')) \<and>
               net languages_url = Rows (JArr rs) \<and> \<not> quota_exceeded w
               \<longrightarrow> fetchLanguages h net w now now' =
                     (JArr data, wrote w languages_url (js ''languages.v1'') now' (JArr data))"
    using d(1,4) by (auto intro: fetchLanguages_success)
  with d show "\<exists>data. languages_data h (JArr rs) = Inr data
            \<and> mset data = mset (map (\<lambda>kv. mk_entry (fst kv) (snd kv))
                                     (first_wins (accepted_langs h rs)))
            \<and> sorted_by_name h data
            \<and> (\<not> truthy (getCache h w now (js ''languages.v1'')) \<and>
               net languages_url = Rows (JArr rs) \<and> \<not> quota_exceeded w
               \<longrightarrow> fetchLanguages h net w now now' =
                     (JArr data, wrote w languages_url (js ''languages.v1'') now' (JArr data)))"
    by blast
next
  show "accepted_langs h rs =
       filter (\<lambda>kv. length (fst kv) = 3 \<and> list_all is_lower_latin (fst kv)) (lang_pairs h rs)"
    by (simp add: accepted_langs_def)
qed (simp_all add: scan_rows_eq map_of_first_wins distinct_first_wins keys_first_wins
       set_first_wins)

lemma sample_languages_first:
  "first_wins (accepted_langs unit_host sample_languages) =
     [(js ''eng'', JStr (js ''English'')), (js ''fra'', JStr (js ''French''))]"
  by (simp add: sample_languages_def accepted_langs_def lang_pairs_def languages_row_def
      object_entries_def js_or_def opt_prop_def nullish_def toLowerCase_def is_ascii_def
      ascii_lower_def is_upper_latin_def is_lower_latin_def js_def)

theorem languages_transform_witness:
  "\<exists>data. languages_data unit_host (JArr sample_languages) = Inr data
     \<and> mset data = mset [mk_entry (js ''eng'') (JStr (js ''English'')),
                           mk_entry (js ''fra'') (JStr (js ''French''))]
     \<and> sorted_by_name unit_host data
     \<and> fetchLanguages unit_host (\<lambda>u. Rows (JArr sample_languages)) empty_world 5 6 =
         (JArr data, wrote empty_world languages_url (js ''languages.v1'') 6 (JArr data))"
proof -
  have t: "list_all (\<lambda>kv. is_str (snd kv)) (first_wins (accepted_langs unit_host sample_languages))"
    unfolding sample_languages_first by (simp add: is_str_def)
  have q: "\<not> quota_exceeded empty_world" by (simp add: empty_world_def)
  show ?thesis
    using languages_transform [of unit_host sample_languages empty_world 5
        "\<lambda>u. Rows (JArr sample_languages)" 6] t q collation_ok_unit
      empty_world_miss [of unit_host 5]
    unfolding sample_languages_first by auto
qed

text \<open>
  Claim C7 as stated fails: for rows whose names are numbers the comparator raises on
  its first call and \<open>fetchLanguages\<close> returns the stub, which is neither built from the
  rows nor sorted by name.
\<close>

theorem languages_untyped_counterexample:
  "first_wins (accepted_langs plain_host numeric_rows) =
     [(js ''eng'', JNum (Fin 1)), (js ''fra'', JNum (Fin 2))]
   \<and> languages_data plain_host (JArr numeric_rows) = Inl TypeError
   \<and> fetchLanguages plain_host (\<lambda>u. Rows (JArr numeric_rows)) empty_world 0 0 =
       (languagesStub, request empty_world languages_url)"
proof -
  have f: "first_wins (accepted_langs plain_host numeric_rows) =
     [(js ''eng'', JNum (Fin 1)), (js ''fra'', JNum (Fin 2))]"
    by (simp add: numeric_rows_def accepted_langs_def lang_pairs_def object_entries_def
        js_or_def opt_prop_def nullish_def toLowerCase_def is_ascii_def ascii_lower_def
        is_upper_latin_def is_lower_latin_def js_def)
  have c: "cmp_name plain_host (mk_entry a (JNum n)) b = Inl TypeError" for a n b
    by (simp add: cmp_name_def name_of_entry)
  have d: "languages_data plain_host (JArr numeric_rows) = Inl TypeError"
    by (simp add: languages_data_def iterate_def scan_rows_eq f sort_js_def cmp_ok_def
        cmp_fails_def c)
  have t: "languages_try plain_host (Rows (JArr numeric_rows)) (request empty_world languages_url) 0 =
      Inl TypeError"
    by (simp add: languages_try_def body_of_def d)
  show ?thesis
    using f d t empty_world_miss [of plain_host 0 "js ''languages.v1''"]
      fetchLanguages_fallback [where h = plain_host and w = empty_world and now = 0
        and net = "\<lambda>u. Rows (JArr numeric_rows)" and now' = 0 and e = TypeError]
    by simp
qed

lemma countries_data_none:
  "filter keep_country rs = [] \<Longrightarrow> countries_data h (JArr rs) = Inr []"
  by (simp add: countries_data_def sort_js_def)

lemma languages_data_none:
  "accepted_langs h rs = [] \<Longrightarrow> languages_data h (JArr rs) = Inr []"
  by (simp add: languages_data_def iterate_def scan_rows_eq sort_js_def)

lemma fetchCountries_try_ok:
  "\<not> truthy (getCache h w now (js ''countries.v1'')) \<Longrightarrow>
   countries_try h (net countries_url) (request w countries_url) now' = Inr (d, w2) \<Longrightarrow>
   fetchCountries h net w now now' = (d, w2)"
  by (simp add: fetchCountries_def)

lemma fetchLanguages_try_ok:
  "\<not> truthy (getCache h w now (js ''languages.v1'')) \<Longrightarrow>
   languages_try h (net languages_url) (request w languages_url) now' = Inr (d, w2) \<Longrightarrow>
   fetchLanguages h net w now now' = (d, w2)"
  by (simp add: fetchLanguages_def)

lemma wrote_storage:
  "storage (wrote w url key now d) key =
     Some (Json (JObj [(js ''ts'', JNum (Fin (of_int now))), (js ''data'', d)]))"
  by (simp add: wrote_def)

text \<open>
  Claim C10, as the code has it. On a cache miss, a response whose rows all fail the
  filter of the transform is a success when the store accepts the write: the fetcher
  writes the empty list to the cache and returns it, and the empty list is not the stub.
  Whenever the body of the \<open>try\<close> completes, its data is what the fetcher returns, so the
  stub is returned only after an exception. The cache write is inside the \<open>try\<close>: when
  the store refuses it, the fetcher returns the stub, whatever the response.
\<close>

theorem empty_result_is_success:
  "(\<not> truthy (getCache h w now (js ''countries.v1'')) \<and> net countries_url = Rows (JArr rs) \<and>
      filter keep_country rs = [] \<and> \<not> quota_exceeded w
      \<longrightarrow> fetchCountries h net w now now' =
            (JArr [], wrote w countries_url (js ''countries.v1'') now' (JArr [])))
   \<and> (\<not> truthy (getCache h w now (js ''languages.v1'')) \<and> net languages_url = Rows (JArr rs) \<and>
      accepted_langs h rs = [] \<and> \<not> quota_exceeded w
      \<longrightarrow> fetchLanguages h net w now now' =
            (JArr [], wrote w languages_url (js ''languages.v1'') now' (JArr [])))
   \<and> storage (wrote w url key now' (JArr [])) key =
       Some (Json (JObj [(js ''ts'', JNum (Fin (of_int now'))), (js ''data'', JArr [])]))
   \<and> JArr [] \<noteq> countriesStub \<and> JArr [] \<noteq> languagesStub
   \<and> (\<not> truthy (getCache h w now (js ''countries.v1'')) \<and>
      countries_try h (net countries_url) (request w countries_url) now' = Inr (d, w2)
      \<longrightarrow> fetchCountries h net w now now' = (d, w2))
   \<and> (\<not> truthy (getCache h w now (js ''languages.v1'')) \<and>
      languages_try h (net languages_url) (request w languages_url) now' = Inr (d, w2)
      \<longrightarrow> fetchLanguages h net w now now' = (d, w2))
   \<and> (\<not> truthy (getCache h w now (js ''countries.v1'')) \<and> quota_exceeded w
      \<longrightarrow> fetchCountries h net w now now' = (countriesStub, request w countries_url))
   \<and> (\<not> truthy (getCache h w now (js ''languages.v1'')) \<and> quota_exceeded w
      \<longrightarrow> fetchLanguages h net w now now' = (languagesStub, request w languages_url))"
proof (intro conjI impI)
  assume a: "\<not> truthy (getCache h w now (js ''countries.v1'')) \<and> quota_exceeded w"
  then have "quota_exceeded (request w countries_url)" by (simp add: request_frame)
  then obtain e where "countries_try h (net countries_url) (request w countries_url) now' = Inl e"
    using countries_try_quota by blast
  with a show "fetchCountries h net w now now' = (countriesStub, request w countries_url)"
    by (simp add: fetchCountries_fallback)
next
  assume a: "\<not> truthy (getCache h w now (js ''languages.v1'')) \<and> quota_exceeded w"
  then have "quota_exceeded (request w languages_url)" by (simp add: request_frame)
  then obtain e where "languages_try h (net languages_url) (request w languages_url) now' = Inl e"
    using languages_try_quota by blast
  with a show "fetchLanguages h net w now now' = (languagesStub, request w languages_url)"
    by (simp add: fetchLanguages_fallback)
next
  assume "\<not> truthy (getCache h w now (js ''countries.v1'')) \<and> net countries_url = Rows (JArr rs) \<and>
      filter keep_country rs = [] \<and> \<not> quota_exceeded w"
  then have "\<not> truthy (getCache h w now (js ''countries.v1''))"
      "net countries_url = Rows (JArr rs)" "countries_data h (JArr rs) = Inr []"
      "are_json []" "\<not> quota_exceeded w"
    by (blast, blast, blast intro: countries_data_none, simp, blast)
  then show "fetchCountries h net w now now' =
            (JArr [], wrote w countries_url (js ''countries.v1'') now' (JArr []))"
    by (rule fetchCountries_success)
next
  assume "\<not> truthy (getCache h w now (js ''languages.v1'')) \<and> net languages_url = Rows (JArr rs) \<and>
      accepted_langs h rs = [] \<and> \<not> quota_exceeded w"
  then have "\<not> truthy (getCache h w now (js ''languages.v1''))"
      "net languages_url = Rows (JArr rs)" "languages_data h (JArr rs) = Inr []"
      "are_json []" "\<not> quota_exceeded w"
    by (blast, blast, blast intro: languages_data_none, simp, blast)
  then show "fetchLanguages h net w now now' =
            (JArr [], wrote w languages_url (js ''languages.v1'') now' (JArr []))"
    by (rule fetchLanguages_success)
qed (simp_all add: wrote_storage countriesStub_def languagesStub_def fetchCountries_try_ok
       fetchLanguages_try_ok)

theorem empty_result_is_success_witness:
  "fetchCountries plain_host (\<lambda>u. Rows (JArr [JNull, JObj []])) empty_world 5 6 =
     (JArr [], wrote empty_world countries_url (js ''countries.v1'') 6 (JArr []))
   \<and> fetchLanguages plain_host (\<lambda>u. Rows (JArr [JNull, JObj []])) empty_world 5 6 =
     (JArr [], wrote empty_world languages_url (js ''languages.v1'') 6 (JArr []))
   \<and> fetchCountries plain_host (\<lambda>u. Rows (JArr [JNull, JObj []])) full_world 5 6 =
     (countriesStub, request full_world countries_url)
   \<and> fetchLanguages plain_host (\<lambda>u. Rows (JArr [JNull, JObj []])) full_world 5 6 =
     (languagesStub, request full_world languages_url)"
proof -
  have k: "filter keep_country [JNull, JObj []] = []"
    by (simp add: keep_country_def js_and_def opt_prop_def nullish_def)
  have a: "accepted_langs plain_host [JNull, JObj []] = []"
    by (simp add: accepted_langs_def lang_pairs_def object_entries_def js_or_def opt_prop_def nullish_def)
  have q: "\<not> quota_exceeded empty_world" by (simp add: empty_world_def)
  have f: "\<not> truthy (getCache plain_host full_world 5 k)" for k
    by (simp add: getCache_def getCache_try_def full_world_def empty_world_def)
  have qf: "quota_exceeded full_world" by (simp add: full_world_def)
  have 1: "fetchCountries plain_host (\<lambda>u. Rows (JArr [JNull, JObj []])) empty_world 5 6 =
     (JArr [], wrote empty_world countries_url (js ''countries.v1'') 6 (JArr []))"
    using empty_result_is_success [where h = plain_host and w = empty_world and now = 5
        and net = "\<lambda>u. Rows (JArr [JNull, JObj []])" and rs = "[JNull, JObj []]" and now' = 6]
      k q empty_world_miss [of plain_host 5] by blast
  have 2: "fetchLanguages plain_host (\<lambda>u. Rows (JArr [JNull, JObj []])) empty_world 5 6 =
     (JArr [], wrote empty_world languages_url (js ''languages.v1'') 6 (JArr []))"
    using empty_result_is_success [where h = plain_host and w = empty_world and now = 5
        and net = "\<lambda>u. Rows (JArr [JNull, JObj []])" and rs = "[JNull, JObj []]" and now' = 6]
      a q empty_world_miss [of plain_host 5] by blast
  have 3: "fetchCountries plain_host (\<lambda>u. Rows (JArr [JNull, JObj []])) full_world 5 6 =
     (countriesStub, request full_world countries_url)"
    using empty_result_is_success [where h = plain_host and w = full_world and now = 5
        and net = "\<lambda>u. Rows (JArr [JNull, JObj []])" and now' = 6] f qf by blast
  have 4: "fetchLanguages plain_host (\<lambda>u. Rows (JArr [JNull, JObj []])) full_world 5 6 =
     (languagesStub, request full_world languages_url)"
    using empty_result_is_success [where h = plain_host and w = full_world and now = 5
        and net = "\<lambda>u. Rows (JArr [JNull, JObj []])" and now' = 6] f qf by blast
  show ?thesis using 1 2 3 4 by simp
qed

text \<open>
  Claim C10 as stated fails: with a store that refuses the write, a successful response
  whose rows all fail the filter yields the stub, not the empty list.
\<close>

theorem empty_result_quota_counterexample:
  "filter keep_country [JNull, JObj []] = []
   \<and> countries_data plain_host (JArr [JNull, JObj []]) = Inr []
   \<and> fetchCountries plain_host (\<lambda>u. Rows (JArr [JNull, JObj []])) full_world 5 6 =
       (countriesStub, request full_world countries_url)
   \<and> countriesStub \<noteq> JArr []"
proof -
  have k: "filter keep_country [JNull, JObj []] = []"
    by (simp add: keep_country_def js_and_def opt_prop_def nullish_def)
  have d: "countries_data plain_host (JArr [JNull, JObj []]) = Inr []"
    using k by (rule countries_data_none)
  have m: "\<not> truthy (getCache plain_host full_world 5 (js ''countries.v1''))"
    by (simp add: getCache_def getCache_try_def full_world_def empty_world_def)
  have t: "countries_try plain_host (Rows (JArr [JNull, JObj []]))
      (request full_world countries_url) 6 = Inl QuotaExceededError"
    by (simp add: countries_try_def body_of_def d setCache_def request_def full_world_def
        empty_world_def)
  show ?thesis
    using k d t m
      fetchCountries_fallback [where h = plain_host and w = full_world and now = 5
        and net = "\<lambda>u. Rows (JArr [JNull, JObj []])" and now' = 6
        and e = QuotaExceededError]
    by (simp add: countriesStub_def)
qed

end
